theory Spec2Isabelle
  imports Main "HOL-Library.Sublist" "HOL-Library.Word"
begin

unbundle bit_operations_syntax

section \<open>Address parsing (gnet.go)\<close>

subsection \<open>The string functions of Go's standard library used by parseAddr\<close>

text \<open>
  Go strings are byte sequences: \<open>string\<close> (a \<open>char list\<close>) here.
  \<open>strings.Index(s, substr)\<close> is the index of the first instance of \<open>substr\<close> in \<open>s\<close>,
  or \<open>-1\<close> when there is none: \<open>None\<close> here.
\<close>

fun strings_Index :: "string \<Rightarrow> string \<Rightarrow> nat option" where
  "strings_Index [] substr = (if substr = [] then Some 0 else None)"
| "strings_Index (c # cs) substr =
     (if prefix substr (c # cs) then Some 0
      else map_option Suc (strings_Index cs substr))"

text \<open>\<open>strings.Contains(s, substr)\<close> is \<open>strings.Index(s, substr) >= 0\<close>.\<close>

definition strings_Contains :: "string \<Rightarrow> string \<Rightarrow> bool" where
  "strings_Contains s substr = (strings_Index s substr \<noteq> None)"

lemma strings_Index_bound:
  "strings_Index s substr = Some m \<Longrightarrow> m + length substr \<le> length s"
proof (induction s arbitrary: m)
  case Nil
  then show ?case by (simp split: if_splits)
next
  case (Cons c cs)
  show ?case
  proof (cases "prefix substr (c # cs)")
    case True
    then have "length substr \<le> length (c # cs)" by (rule prefix_length_le)
    with True Cons.prems show ?thesis by simp
  next
    case False
    with Cons.prems obtain k where "strings_Index cs substr = Some k" "m = Suc k"
      by auto
    with Cons.IH show ?thesis by fastforce
  qed
qed

text \<open>
  \<open>strings.Split(s, sep)\<close> for a non-empty separator: the loop of \<open>genSplit\<close>, which cuts
  \<open>s\<close> at the first instance of \<open>sep\<close>, keeps the part before it and goes on behind the
  separator. For the empty separator Go splits after each character.
\<close>

function strings_Split :: "string \<Rightarrow> string \<Rightarrow> string list" where
  "strings_Split s sep =
     (if sep = [] then map (\<lambda>c. [c]) s
      else (case strings_Index s sep of
              None \<Rightarrow> [s]
            | Some m \<Rightarrow> take m s # strings_Split (drop (m + length sep) s) sep))"
  by pat_completeness auto
termination
proof (relation "measure (\<lambda>(s, sep). length s)")
  show "wf (measure (\<lambda>(s, sep). length s))" by simp
next
  fix s sep :: string and m :: nat
  assume "sep \<noteq> []" and "strings_Index s sep = Some m"
  then have "0 < length sep" and "m + length sep \<le> length s"
    using strings_Index_bound by auto
  then have "length s - (m + length sep) < length s" by linarith
  then show "((drop (m + length sep) s, sep), (s, sep)) \<in> measure (\<lambda>(s, sep). length s)"
    by simp
qed

declare strings_Split.simps [simp del]

text \<open>\<open>strings.Count(s, substr)\<close>: the number of non-overlapping instances, counted
  from the left as Go does for a non-empty \<open>substr\<close>.\<close>

function strings_Count :: "string \<Rightarrow> string \<Rightarrow> nat" where
  "strings_Count s substr =
     (if substr = [] then length s + 1
      else (case strings_Index s substr of
              None \<Rightarrow> 0
            | Some i \<Rightarrow> Suc (strings_Count (drop (i + length substr) s) substr)))"
  by pat_completeness auto
termination
proof (relation "measure (\<lambda>(s, substr). length s)")
  show "wf (measure (\<lambda>(s, substr). length s))" by simp
next
  fix s substr :: string and i :: nat
  assume "substr \<noteq> []" and "strings_Index s substr = Some i"
  then have "0 < length substr" and "i + length substr \<le> length s"
    using strings_Index_bound by auto
  then have "length s - (i + length substr) < length s" by linarith
  then show "((drop (i + length substr) s, substr), (s, substr))
      \<in> measure (\<lambda>(s, substr). length s)"
    by simp
qed

declare strings_Count.simps [simp del]

text \<open>Indexing a Go slice: out of range is a run-time panic, \<open>None\<close> here.\<close>

definition index :: "'a list \<Rightarrow> nat \<Rightarrow> 'a option" where
  "index xs i = (if i < length xs then Some (xs ! i) else None)"

subsection \<open>parseAddr\<close>

text \<open>
  \<^verbatim>\<open>
  func parseAddr(addr string) (network, address string) {
      network = "tcp"
      address = addr
      if strings.Contains(address, "://") {
          network = strings.Split(address, "://")[0]
          address = strings.Split(address, "://")[1]
      }
      return
  }
  \<close>
  The second \<open>Split\<close> is applied to the unchanged \<open>address\<close>: the assignment before it
  is to \<open>network\<close>. \<open>None\<close> is the index-out-of-range panic.
\<close>

definition parseAddr :: "string \<Rightarrow> (string \<times> string) option" where
  "parseAddr addr =
     (if strings_Contains addr ''://''
      then (case index (strings_Split addr ''://'') 0 of
              None \<Rightarrow> None
            | Some network \<Rightarrow>
                (case index (strings_Split addr ''://'') 1 of
                   None \<Rightarrow> None
                 | Some address \<Rightarrow> Some (network, address)))
      else Some (''tcp'', addr))"

section \<open>Actions, errors and options (gnet.go, options.go)\<close>

text \<open>\<open>None Action = iota\<close>, \<open>Close\<close>, \<open>Shutdown\<close>; \<open>None\<close> is \<open>NoneAction\<close> here, since
  \<open>None\<close> is HOL's empty option.\<close>

datatype Action = NoneAction | Close | Shutdown

text \<open>Go's \<open>error\<close> values: \<open>nil\<close> is \<open>None\<close> of \<open>error option\<close>. \<open>errShutdown\<close> is the
  sentinel that the job injected by \<open>stop\<close> returns.\<close>

datatype error = errShutdown | Err string

datatype ICodec = BuiltInFrameCodec | UserCodec nat

record Options =
  Multicore :: bool
  ReusePort :: bool
  Ticker :: bool
  TCPKeepAlive :: int
  Codec :: "ICodec option"

type_synonym Option = "Options \<Rightarrow> Options"

text \<open>\<open>new(Options)\<close>: every field has its zero value.\<close>

definition new_Options :: Options where
  "new_Options =
     \<lparr>Multicore = False, ReusePort = False, Ticker = False, TCPKeepAlive = 0, Codec = None\<rparr>"

definition initOptions :: "Option list \<Rightarrow> Options" where
  "initOptions options = foldl (\<lambda>opts option. option opts) new_Options options"

definition WithOptions :: "Options \<Rightarrow> Option" where
  "WithOptions options = (\<lambda>opts. options)"

definition WithMulticore :: "bool \<Rightarrow> Option" where
  "WithMulticore multicore = (\<lambda>opts. opts\<lparr>Multicore := multicore\<rparr>)"

definition WithReusePort :: "bool \<Rightarrow> Option" where
  "WithReusePort reusePort = (\<lambda>opts. opts\<lparr>ReusePort := reusePort\<rparr>)"

definition WithTCPKeepAlive :: "int \<Rightarrow> Option" where
  "WithTCPKeepAlive tcpKeepAlive = (\<lambda>opts. opts\<lparr>TCPKeepAlive := tcpKeepAlive\<rparr>)"

definition WithTicker :: "bool \<Rightarrow> Option" where
  "WithTicker ticker = (\<lambda>opts. opts\<lparr>Ticker := ticker\<rparr>)"

definition WithCodec :: "ICodec \<Rightarrow> Option" where
  "WithCodec codec = (\<lambda>opts. opts\<lparr>Codec := Some codec\<rparr>)"

section \<open>Serve and Connect (gnet.go)\<close>

text \<open>
  The operating system and Go's \<open>net\<close>, \<open>os\<close> and \<open>unix\<close> packages are the environment
  of \<open>Serve\<close> and \<open>Connect\<close>: a record of the results their calls give. Sockets, files and
  resolved addresses are handles (\<open>nat\<close>, \<open>string\<close>). \<open>ln.system()\<close> and \<open>ln.close()\<close> are
  methods of \<open>listener\<close> whose bodies are in none of the files verified here:
  \<open>system\<close> is part of the
  environment, \<open>close\<close> is recorded in the trace.
\<close>

text \<open>The structs \<open>listener\<close> and \<open>connection\<close> have fields of the same names; the fields
  are prefixed here (\<open>ln_\<close>, \<open>con_\<close>), but for \<open>ln.ln\<close>.\<close>

datatype netconn = UDPConn nat | TCPConn nat

record listener =
  ln :: "nat option"
  ln_lnaddr :: "string option"
  ln_pconn :: "nat option"
  ln_f :: "nat option"
  ln_fd :: int
  ln_network :: string
  ln_addr :: string

record connection =
  con_lnaddr :: "string option"
  con_pconn :: "netconn option"
  con_f :: "nat option"
  con_fd :: int
  con_network :: string
  con_addr :: string

record net_env =
  RemoveAll :: "string \<Rightarrow> error option"
  ReusePortListenPacket :: "string \<Rightarrow> string \<Rightarrow> error + nat"
  ListenPacket :: "string \<Rightarrow> string \<Rightarrow> error + nat"
  ReusePortListen :: "string \<Rightarrow> string \<Rightarrow> error + nat"
  Listen :: "string \<Rightarrow> string \<Rightarrow> error + nat"
  LocalAddr :: "nat \<Rightarrow> string"
  system :: "listener \<Rightarrow> error + listener"
  ResolveUDPAddr :: "string \<Rightarrow> string \<Rightarrow> error + string"
  DialUDP :: "string \<Rightarrow> string \<Rightarrow> error + nat"
  ResolveTCPAddr :: "string \<Rightarrow> string \<Rightarrow> error + string"
  DialTCP :: "string \<Rightarrow> string \<Rightarrow> error + nat"
  File :: "netconn \<Rightarrow> error + nat"
  Fd :: "nat \<Rightarrow> int"
  SetNonblock :: "int \<Rightarrow> error option"

text \<open>What a call of \<open>Serve\<close> or \<open>Connect\<close> does besides returning: the calls whose
  occurrence the theorems state, in order.\<close>

datatype call =
    Call_sniffError "error option"
  | Call_serve
  | Call_connect
  | Call_close

text \<open>A Go function returns its results or panics.\<close>

datatype 'a outcome = Return 'a | Panic

text \<open>\<open>var ln listener\<close>, \<open>var con connection\<close>: the zero values.\<close>

definition zero_listener :: listener where
  "zero_listener =
     \<lparr>ln = None, ln_lnaddr = None, ln_pconn = None, ln_f = None, ln_fd = 0,
      ln_network = [], ln_addr = []\<rparr>"

definition zero_connection :: connection where
  "zero_connection =
     \<lparr>con_lnaddr = None, con_pconn = None, con_f = None, con_fd = 0,
      con_network = [], con_addr = []\<rparr>"

text \<open>
  Lines 226 to 239 of \<open>Serve\<close>: the listening call chosen by the network and the
  \<open>ReusePort\<close> option, storing the socket in \<open>ln.pconn\<close> or \<open>ln.ln\<close>.
\<close>

definition Serve_listen :: "net_env \<Rightarrow> Options \<Rightarrow> listener \<Rightarrow> error + listener" where
  "Serve_listen env options l =
     (if ln_network l = ''udp'' then
        (case (if ReusePort options
               then ReusePortListenPacket env (ln_network l) (ln_addr l)
               else ListenPacket env (ln_network l) (ln_addr l)) of
           Inl err \<Rightarrow> Inl err
         | Inr pc \<Rightarrow> Inr (l\<lparr>ln_pconn := Some pc\<rparr>))
      else
        (case (if ReusePort options
               then ReusePortListen env (ln_network l) (ln_addr l)
               else Listen env (ln_network l) (ln_addr l)) of
           Inl err \<Rightarrow> Inl err
         | Inr s \<Rightarrow> Inr (l\<lparr>ln := Some s\<rparr>)))"

text \<open>Lines 243 to 247 of \<open>Serve\<close>: \<open>ln.lnaddr\<close> is the local address of the packet
  socket if there is one, of the listener otherwise.\<close>

definition Serve_lnaddr :: "net_env \<Rightarrow> listener \<Rightarrow> listener" where
  "Serve_lnaddr env l =
     (case ln_pconn l of
        Some pc \<Rightarrow> l\<lparr>ln_lnaddr := Some (LocalAddr env pc)\<rparr>
      | None \<Rightarrow> l\<lparr>ln_lnaddr := map_option (LocalAddr env) (ln l)\<rparr>)"

text \<open>
  \<open>Serve\<close>. The orchestrator \<open>serve\<close> (the server's, in none of
  the files verified here) is a parameter;
  reaching it is recorded as \<open>Call_serve\<close>. The deferred \<open>ln.close()\<close> runs on every
  path, last.
\<close>

definition Serve ::
  "net_env \<Rightarrow> ('h \<Rightarrow> listener \<Rightarrow> Options \<Rightarrow> error option) \<Rightarrow>
   'h \<Rightarrow> string \<Rightarrow> Option list \<Rightarrow> error option outcome \<times> call list" where
  "Serve env serve eventHandler addr opts =
     (let options = initOptions opts in
      case parseAddr addr of
        None \<Rightarrow> (Panic, [Call_close])
      | Some (network, address) \<Rightarrow>
          (let l0 = zero_listener\<lparr>ln_network := network, ln_addr := address\<rparr>;
               t0 = (if network = ''unix'' then [Call_sniffError (RemoveAll env address)] else [])
           in case Serve_listen env options l0 of
                Inl err \<Rightarrow> (Return (Some err), t0 @ [Call_close])
              | Inr l1 \<Rightarrow>
                  (case system env (Serve_lnaddr env l1) of
                     Inl err \<Rightarrow> (Return (Some err), t0 @ [Call_close])
                   | Inr l2 \<Rightarrow>
                       (Return (serve eventHandler l2 options),
                        t0 @ [Call_serve, Call_close]))))"

text \<open>The address resolution and the dial of \<open>Connect\<close>, chosen by the network (lines 263
  to 284): \<open>udp\<close> resolves and dials UDP, every other network TCP.\<close>

definition Connect_resolve :: "net_env \<Rightarrow> string \<Rightarrow> string \<Rightarrow> error + string" where
  "Connect_resolve env network address =
     (if network = ''udp'' then ResolveUDPAddr env network address
      else ResolveTCPAddr env network address)"

definition Connect_dial :: "net_env \<Rightarrow> string \<Rightarrow> string \<Rightarrow> error + netconn" where
  "Connect_dial env network raddr =
     (if network = ''udp'' then map_sum id UDPConn (DialUDP env network raddr)
      else map_sum id TCPConn (DialTCP env network raddr))"

text \<open>
  \<open>Connect\<close>. The orchestrator \<open>connect\<close> of client.go (modelled below) is the parameter
  \<open>connect\<close>; reaching it is recorded as \<open>Call_connect\<close>.
\<close>

definition Connect ::
  "net_env \<Rightarrow> ('h \<Rightarrow> connection \<Rightarrow> Options \<Rightarrow> error option) \<Rightarrow>
   'h \<Rightarrow> string \<Rightarrow> Option list \<Rightarrow> error option outcome \<times> call list" where
  "Connect env connect eventHandler addr opts =
     (let options = initOptions opts in
      case parseAddr addr of
        None \<Rightarrow> (Panic, [])
      | Some (network, address) \<Rightarrow>
          (let con0 = zero_connection\<lparr>con_network := network, con_addr := address\<rparr>
           in case Connect_resolve env network address of
                Inl err \<Rightarrow> (Return (Some err), [])
              | Inr raddr \<Rightarrow>
                  (case Connect_dial env network raddr of
                     Inl err \<Rightarrow> (Return (Some err), [])
                   | Inr c \<Rightarrow>
                       (case File env c of
                          Inl err \<Rightarrow> (Return (Some err), [])
                        | Inr f \<Rightarrow>
                            (let con1 = con0\<lparr>con_pconn := Some c, con_f := Some f,
                                              con_fd := Fd env f\<rparr>
                             in case SetNonblock env (con_fd con1) of
                                  Some err \<Rightarrow> (Return (Some err), [])
                                | None \<Rightarrow>
                                    (Return (connect eventHandler con1 options),
                                     [Call_connect]))))))"

section \<open>The reactors' polling callbacks (reactor_linux.go)\<close>

text \<open>\<open>internal.Job\<close> is \<open>func() error\<close>.\<close>

type_synonym job = "unit \<Rightarrow> error option"

text \<open>
  Modelled from the spec: the byte store of the \<open>ringbuffer\<close> package
  (imported, in none of the files verified here) is kept as the bytes it holds;
  \<open>IsEmpty\<close> says that it holds none. Of a
  \<open>conn\<close> (declared in none of the files verified here) the descriptor and the
  outbound store are kept.
\<close>

type_synonym ringbuffer = "8 word list"

definition IsEmpty :: "ringbuffer \<Rightarrow> bool" where
  "IsEmpty r = (r = [])"

record conn =
  conn_fd :: int
  outboundBuffer :: ringbuffer

text \<open>
  Modelled from the spec: the readiness notifier (\<open>netpoll.Poller\<close>, imported,
  in none of the files verified here) holds the descriptors registered for inbound
  interest, the queue of injected
  jobs and whether it was closed. \<open>AddRead\<close> registers a descriptor, \<open>Trigger\<close> injects
  a job, \<open>Close\<close> releases the notifier. Their error results are discarded or only logged
  by every caller verified here (\<open>_ =\<close>, \<open>sniffError\<close>); the model keeps their effect.
\<close>

record Poller =
  readers :: "int set"
  asyncJobQueue :: "job list"
  poller_closed :: bool

definition AddRead :: "Poller \<Rightarrow> int \<Rightarrow> Poller" where
  "AddRead p d = p\<lparr>readers := insert d (readers p)\<rparr>"

definition Trigger :: "Poller \<Rightarrow> job \<Rightarrow> Poller" where
  "Trigger p j = p\<lparr>asyncJobQueue := asyncJobQueue p @ [j]\<rparr>"

definition Poller_Close :: "Poller \<Rightarrow> Poller" where
  "Poller_Close p = p\<lparr>poller_closed := True\<rparr>"

text \<open>The \<open>loop\<close> as \<open>activateReactors\<close> builds it; the back-reference \<open>cl\<close> is left out.\<close>

record loop =
  idx :: int
  poller :: Poller
  packet :: "8 word list"
  connections :: "int \<rightharpoonup> conn"

text \<open>
  The handlers \<open>loopIn\<close>, \<open>loopOut\<close>, \<open>loopClientIn\<close> and \<open>loopClientOut\<close> are methods of
  \<open>loop\<close> in none of the files verified here: parameters here, taking the loop
  and the connection and
  giving the error they return and the loop they leave. So are the event masks
  \<open>netpoll.OutEvents\<close> and \<open>netpoll.InEvents\<close>.
\<close>

type_synonym 'a handler = "'a loop_scheme \<Rightarrow> conn \<Rightarrow> error option \<times> 'a loop_scheme"

text \<open>The callback that \<open>activateSubReactor\<close> gives to \<open>lp.poller.Polling\<close>.\<close>

definition subReactor_callback ::
  "32 word \<Rightarrow> 32 word \<Rightarrow> 'a handler \<Rightarrow> 'a handler \<Rightarrow>
   'a loop_scheme \<Rightarrow> int \<Rightarrow> 32 word \<Rightarrow> job option \<Rightarrow> error option \<times> 'a loop_scheme" where
  "subReactor_callback OutEvents InEvents loopIn loopOut lp d ev j =
     (case connections lp d of
        Some c \<Rightarrow>
          (case IsEmpty (outboundBuffer c) of
             False \<Rightarrow> if ev AND OutEvents \<noteq> 0 then loopOut lp c else (None, lp)
           | True \<Rightarrow> if ev AND InEvents \<noteq> 0 then loopIn lp c else (None, lp))
      | None \<Rightarrow> (None, lp))"

text \<open>The callback that the client's \<open>activateMainReactor\<close> gives to
  \<open>cl.mainLoop.poller.Polling\<close>; \<open>lp\<close> is the loop \<open>cl.mainLoop\<close> points to.\<close>

definition Client_mainReactor_callback ::
  "32 word \<Rightarrow> 32 word \<Rightarrow> 'a handler \<Rightarrow> 'a handler \<Rightarrow>
   'a loop_scheme \<Rightarrow> int \<Rightarrow> 32 word \<Rightarrow> job option \<Rightarrow> error option \<times> 'a loop_scheme" where
  "Client_mainReactor_callback OutEvents InEvents loopClientIn loopClientOut lp d ev j =
     (case connections lp d of
        Some c \<Rightarrow>
          (case IsEmpty (outboundBuffer c) of
             False \<Rightarrow> if ev AND OutEvents \<noteq> 0 then loopClientOut lp c else (None, lp)
           | True \<Rightarrow> if ev AND InEvents \<noteq> 0 then loopClientIn lp c else (None, lp))
      | None \<Rightarrow> (None, lp))"

text \<open>The callback of the server's \<open>activateMainReactor\<close> (the accept reactor):
  \<open>return svr.acceptNewConnection(fd)\<close>, whatever the descriptor and the event mask.\<close>

definition server_mainReactor_callback ::
  "('s \<Rightarrow> int \<Rightarrow> error option \<times> 's) \<Rightarrow>
   's \<Rightarrow> int \<Rightarrow> 32 word \<Rightarrow> job option \<Rightarrow> error option \<times> 's" where
  "server_mainReactor_callback acceptNewConnection svr d ev j = acceptNewConnection svr d"

text \<open>
  Modelled from the spec: the blocking wait call of the notifier (\<open>Polling\<close>,
  in none of the files verified here) invokes the callback once per ready descriptor and
  keeps waiting until the
  callback returns a non-nil error. The readiness notifications that arrive are a finite
  list here; \<open>Inr\<close> is a wait call that has not returned when they are used up.
\<close>

fun Polling ::
  "('s \<Rightarrow> int \<Rightarrow> 32 word \<Rightarrow> job option \<Rightarrow> error option \<times> 's) \<Rightarrow>
   (int \<times> 32 word) list \<Rightarrow> 's \<Rightarrow> (error \<times> 's) + 's" where
  "Polling callback [] s = Inr s"
| "Polling callback ((d, ev) # ns) s =
     (case callback s d ev None of
        (Some err, s') \<Rightarrow> Inl (err, s')
      | (None, s') \<Rightarrow> Polling callback ns s')"

subsection \<open>The ticker\<close>

text \<open>The goroutines an activation launches with \<open>go\<close> before it enters \<open>Polling\<close>.\<close>

datatype goroutine = loopTicker int

definition activateSubReactor_go :: "Options \<Rightarrow> 'a loop_scheme \<Rightarrow> goroutine list" where
  "activateSubReactor_go svr_opts lp =
     (if idx lp = 0 \<and> Ticker svr_opts then [loopTicker (idx lp)] else [])"

definition Client_activateMainReactor_go :: "Options \<Rightarrow> 'a loop_scheme \<Rightarrow> goroutine list" where
  "Client_activateMainReactor_go cl_opts mainLoop =
     (if idx mainLoop = 0 \<and> Ticker cl_opts then [loopTicker (idx mainLoop)] else [])"

definition server_activateMainReactor_go :: "Options \<Rightarrow> 'a loop_scheme \<Rightarrow> goroutine list" where
  "server_activateMainReactor_go svr_opts mainLoop = []"

subsection \<open>The accept path\<close>

text \<open>
  Modelled from the spec: \<open>acceptNewConnection\<close> (in none of the files
  verified here), section 4.5: the
  accept reactor's readiness callback accepts a new native connection, constructs a
  connection, selects a worker by round-robin over the pool, registers the descriptor for
  inbound interest on that worker's notifier, and fires the opened-callback (\<open>loopOpen\<close>,
  a parameter). The native connections waiting at the listener are \<open>backlog\<close>; a new
  connection has an empty outbound store.
\<close>

record server =
  svr_mainLoop :: loop
  subLoopGroup :: "loop list"
  cursor :: nat
  backlog :: "int list"

definition newConn :: "int \<Rightarrow> conn" where
  "newConn d = \<lparr>conn_fd = d, outboundBuffer = []\<rparr>"

definition acceptNewConnection ::
  "(server \<Rightarrow> nat \<Rightarrow> conn \<Rightarrow> error option \<times> server) \<Rightarrow>
   server \<Rightarrow> int \<Rightarrow> error option \<times> server" where
  "acceptNewConnection loopOpen svr d =
     (case backlog svr of
        [] \<Rightarrow> (None, svr)
      | nfd # rest \<Rightarrow>
          (if subLoopGroup svr = [] then (None, svr\<lparr>backlog := rest\<rparr>)
           else
             (let i = cursor svr mod length (subLoopGroup svr);
                  c = newConn nfd;
                  lp = subLoopGroup svr ! i;
                  lp' = lp\<lparr>poller := AddRead (poller lp) nfd,
                           connections := (connections lp)(nfd \<mapsto> c)\<rparr>
              in loopOpen
                   (svr\<lparr>backlog := rest, cursor := cursor svr + 1,
                        subLoopGroup := (subLoopGroup svr)[i := lp']\<rparr>) i c)))"

section \<open>The client (client.go)\<close>

text \<open>
  \<open>sync.Cond\<close>: \<open>waiting\<close> counts the goroutines parked in \<open>Wait\<close>, \<open>woken\<close> those a
  \<open>Signal\<close> has released and that have not yet returned from \<open>Wait\<close>. \<open>Signal\<close> releases
  one parked goroutine if there is one, and is lost otherwise. \<open>signalled\<close> counts the
  calls of \<open>Signal\<close>.
\<close>

record Cond =
  waiting :: nat
  woken :: nat
  signalled :: nat

definition NewCond :: Cond where
  "NewCond = \<lparr>waiting = 0, woken = 0, signalled = 0\<rparr>"

definition Cond_Signal :: "Cond \<Rightarrow> Cond" where
  "Cond_Signal c =
     (if 0 < waiting c
      then c\<lparr>waiting := waiting c - 1, woken := woken c + 1, signalled := signalled c + 1\<rparr>
      else c\<lparr>signalled := signalled c + 1\<rparr>)"

text \<open>\<open>Wait\<close> in two steps: the caller parks, and returns once a \<open>Signal\<close> has released
  it (\<open>None\<close>: still blocked).\<close>

definition Cond_Wait_park :: "Cond \<Rightarrow> Cond" where
  "Cond_Wait_park c = c\<lparr>waiting := waiting c + 1\<rparr>"

definition Cond_Wait_resume :: "Cond \<Rightarrow> Cond option" where
  "Cond_Wait_resume c = (if 0 < woken c then Some (c\<lparr>woken := woken c - 1\<rparr>) else None)"

text \<open>
  The \<open>Client\<close>. \<open>once\<close> is the done flag of \<open>sync.Once\<close>, \<open>wg\<close> the counter of
  \<open>sync.WaitGroup\<close>; a nil pointer is \<open>None\<close>. \<open>eventHandler\<close> is a parameter of
  \<open>connect\<close>; \<open>bytesPool\<close> is left out.
\<close>

record Client =
  connection :: connection
  opts :: Options
  mainLoop :: "loop option"
  wg :: nat
  cond :: Cond
  once :: bool
  conn :: "conn option"
  codec :: "ICodec option"

text \<open>\<open>Client.Write\<close>: \<open>cl.conn.write(b)\<close>. \<open>write\<close> is a
  method of \<open>conn\<close> in none of the files verified here: a parameter, called on
  the pointer \<open>cl.conn\<close> as it is, nil or not.\<close>

definition Client_Write :: "(conn option \<Rightarrow> 8 word list \<Rightarrow> 'r) \<Rightarrow> Client \<Rightarrow> 8 word list \<Rightarrow> 'r" where
  "Client_Write write cl b = write (conn cl) b"

text \<open>\<open>signalShutdown\<close>: \<open>cl.once.Do\<close> runs its argument only if \<open>once\<close> is not yet done,
  and sets it.\<close>

definition signalShutdown :: "Client \<Rightarrow> Client" where
  "signalShutdown cl =
     (if once cl then cl
      else cl\<lparr>cond := Cond_Signal (cond cl), once := True\<rparr>)"

text \<open>\<open>waitForShutdown\<close>: \<open>cl.cond.Wait()\<close> under the lock, in the two steps of \<open>Wait\<close>.\<close>

definition waitForShutdown_park :: "Client \<Rightarrow> Client" where
  "waitForShutdown_park cl = cl\<lparr>cond := Cond_Wait_park (cond cl)\<rparr>"

definition waitForShutdown_resume :: "Client \<Rightarrow> Client option" where
  "waitForShutdown_resume cl =
     (case Cond_Wait_resume (cond cl) of
        None \<Rightarrow> None
      | Some c \<Rightarrow> Some (cl\<lparr>cond := c\<rparr>))"

text \<open>Modelled from the spec: \<open>newClientConn\<close> (in none of the files verified
  here) constructs the
  connection of descriptor \<open>d\<close>, with an empty outbound store.\<close>

definition newClientConn :: "int \<Rightarrow> conn" where
  "newClientConn d = \<lparr>conn_fd = d, outboundBuffer = []\<rparr>"

text \<open>
  \<open>activateReactors\<close>; \<open>OpenPoller\<close> is the result of \<open>netpoll.OpenPoller()\<close>. On success
  the goroutine of the main reactor is started after \<open>cl.wg.Add(1)\<close>: the \<open>bool\<close> says
  whether it was.
\<close>

definition activateReactors :: "error + Poller \<Rightarrow> Client \<Rightarrow> error option \<times> Client \<times> bool" where
  "activateReactors OpenPoller cl =
     (case OpenPoller of
        Inr p \<Rightarrow>
          (let lp = \<lparr>idx = 0, poller = AddRead p (con_fd (connection cl)),
                      packet = replicate 0xFFFF 0, connections = Map.empty\<rparr>;
               c = newClientConn (con_fd (connection cl));
               lp' = lp\<lparr>connections := (connections lp)(con_fd (connection cl) \<mapsto> c)\<rparr>
           in (None, cl\<lparr>mainLoop := Some lp', conn := Some c, wg := wg cl + 1\<rparr>, True))
      | Inl err \<Rightarrow> (Some err, cl, False))"

definition start :: "error + Poller \<Rightarrow> Client \<Rightarrow> error option \<times> Client \<times> bool" where
  "start OpenPoller cl = activateReactors OpenPoller cl"

subsection \<open>The goroutines of a client\<close>

text \<open>
  \<open>stop\<close> blocks, and what releases it is done by another goroutine, so the client is a
  transition system: a \<open>world\<close> is the \<open>Client\<close> with the place each goroutine has reached.
  The goroutine that runs \<open>cl.stop()\<close> is at one of
  \<^item> \<open>StopWaitForShutdown\<close>: before \<open>cl.waitForShutdown()\<close>;
  \<^item> \<open>StopParked\<close>: parked in \<open>cl.cond.Wait()\<close>;
  \<^item> \<open>StopTrigger\<close>: before \<open>cl.mainLoop.poller.Trigger(...)\<close>;
  \<^item> \<open>StopWgWait\<close>: in \<open>cl.wg.Wait()\<close>;
  \<^item> \<open>StopClose\<close>: before \<open>cl.mainLoop.poller.Close()\<close>;
  \<^item> \<open>StopReturned\<close>.
  The goroutine started by \<open>activateReactors\<close> is at one of
  \<^item> \<open>ReactorStart\<close>: before \<open>cl.activateMainReactor()\<close>;
  \<^item> \<open>ReactorPolling\<close>: in \<open>Polling\<close>;
  \<^item> \<open>ReactorDeferred\<close>: \<open>Polling\<close> has returned, the deferred \<open>cl.signalShutdown()\<close>
    is next;
  \<^item> \<open>ReactorWgDone\<close>: before \<open>cl.wg.Done()\<close>;
  \<^item> \<open>ReactorExited\<close>.
\<close>

datatype stop_pc =
  StopWaitForShutdown | StopParked | StopTrigger | StopWgWait | StopClose | StopReturned

datatype reactor_pc =
  ReactorStart | ReactorPolling | ReactorDeferred | ReactorWgDone | ReactorExited

record world =
  client :: Client
  stop_at :: stop_pc
  reactor_at :: reactor_pc
  launched :: "goroutine list"

text \<open>The job that \<open>stop\<close> injects: \<open>func() error { return errShutdown }\<close>.\<close>

definition shutdown_job :: job where
  "shutdown_job = (\<lambda>_. Some errShutdown)"

text \<open>
  \<^verbatim>\<open>
  func (cl *Client) stop() {
      cl.waitForShutdown()
      if cl.mainLoop != nil {
          sniffError(cl.mainLoop.poller.Trigger(func() error { return errShutdown }))
      }
      cl.wg.Wait()
      if cl.mainLoop != nil {
          sniffError(cl.mainLoop.poller.Close())
      }
  }
  \<close>
  One step of the goroutine that runs it; \<open>None\<close> when it is blocked or has returned.
\<close>

definition stop_step :: "world \<Rightarrow> world option" where
  "stop_step w =
     (let cl = client w in
      case stop_at w of
        StopWaitForShutdown \<Rightarrow>
          Some (w\<lparr>client := waitForShutdown_park cl, stop_at := StopParked\<rparr>)
      | StopParked \<Rightarrow>
          (case waitForShutdown_resume cl of
             None \<Rightarrow> None
           | Some cl' \<Rightarrow> Some (w\<lparr>client := cl', stop_at := StopTrigger\<rparr>))
      | StopTrigger \<Rightarrow>
          (case mainLoop cl of
             Some lp \<Rightarrow>
               Some (w\<lparr>client := cl\<lparr>mainLoop := Some (lp\<lparr>poller := Trigger (poller lp) shutdown_job\<rparr>)\<rparr>,
                       stop_at := StopWgWait\<rparr>)
           | None \<Rightarrow> Some (w\<lparr>stop_at := StopWgWait\<rparr>))
      | StopWgWait \<Rightarrow>
          (if wg cl = 0 then Some (w\<lparr>stop_at := StopClose\<rparr>) else None)
      | StopClose \<Rightarrow>
          (case mainLoop cl of
             Some lp \<Rightarrow>
               Some (w\<lparr>client := cl\<lparr>mainLoop := Some (lp\<lparr>poller := Poller_Close (poller lp)\<rparr>)\<rparr>,
                       stop_at := StopReturned\<rparr>)
           | None \<Rightarrow> Some (w\<lparr>stop_at := StopReturned\<rparr>))
      | StopReturned \<Rightarrow> None)"

text \<open>
  The goroutine of the main reactor, \<open>cl.activateMainReactor(); cl.wg.Done()\<close>, outside
  \<open>Polling\<close>: it enters \<open>Polling\<close> after launching the ticker if there is one; when
  \<open>Polling\<close> has returned it runs the deferred \<open>cl.signalShutdown()\<close>, then \<open>cl.wg.Done()\<close>.
  \<open>None\<close> while it is in \<open>Polling\<close>, when it has exited, and for a panic (the nil
  dereference of \<open>cl.mainLoop\<close>, \<open>Done\<close> on a counter that is 0).
\<close>

definition reactor_step :: "world \<Rightarrow> world option" where
  "reactor_step w =
     (let cl = client w in
      case reactor_at w of
        ReactorStart \<Rightarrow>
          (case mainLoop cl of
             None \<Rightarrow> None
           | Some lp \<Rightarrow>
               Some (w\<lparr>launched := launched w @ Client_activateMainReactor_go (opts cl) lp,
                       reactor_at := ReactorPolling\<rparr>))
      | ReactorPolling \<Rightarrow> None
      | ReactorDeferred \<Rightarrow>
          Some (w\<lparr>client := signalShutdown cl, reactor_at := ReactorWgDone\<rparr>)
      | ReactorWgDone \<Rightarrow>
          (if wg cl = 0 then None
           else Some (w\<lparr>client := cl\<lparr>wg := wg cl - 1\<rparr>, reactor_at := ReactorExited\<rparr>))
      | ReactorExited \<Rightarrow> None)"

text \<open>
  What the notifier delivers to the reactor in \<open>Polling\<close>: a readiness notification, for
  which it invokes the callback, or (modelled from the spec, sections 4.1 and 4.2) the
  next injected job, run on the reactor's own goroutine. A non-nil error of either ends
  \<open>Polling\<close>. The handlers and event masks are the record \<open>netpoll\<close>.
\<close>

datatype notification = Ready int "32 word" | Injected

record netpoll =
  OutEvents :: "32 word"
  InEvents :: "32 word"
  loopClientIn :: "unit handler"
  loopClientOut :: "unit handler"

definition polling_step :: "netpoll \<Rightarrow> notification \<Rightarrow> world \<Rightarrow> world option" where
  "polling_step N n w =
     (let cl = client w in
      if reactor_at w \<noteq> ReactorPolling then None
      else
        (case mainLoop cl of
           None \<Rightarrow> None
         | Some lp \<Rightarrow>
             (case n of
                Ready d ev \<Rightarrow>
                  (case Client_mainReactor_callback (OutEvents N) (InEvents N)
                          (loopClientIn N) (loopClientOut N) lp d ev None of
                     (err, lp') \<Rightarrow>
                       Some (w\<lparr>client := cl\<lparr>mainLoop := Some lp'\<rparr>,
                               reactor_at :=
                                 (if err = None then ReactorPolling else ReactorDeferred)\<rparr>))
              | Injected \<Rightarrow>
                  (case asyncJobQueue (poller lp) of
                     [] \<Rightarrow> None
                   | j # js \<Rightarrow>
                       Some (w\<lparr>client :=
                                 cl\<lparr>mainLoop := Some (lp\<lparr>poller := (poller lp)\<lparr>asyncJobQueue := js\<rparr>\<rparr>)\<rparr>,
                               reactor_at :=
                                 (if j () = None then ReactorPolling else ReactorDeferred)\<rparr>)))))"

text \<open>
  The events of a client: a step of the goroutine in \<open>stop\<close>, a step of the reactor's
  goroutine outside \<open>Polling\<close>, a notification delivered in \<open>Polling\<close>, and a call of
  \<open>cl.signalShutdown()\<close> from another path (modelled from the spec, section 4.2: a
  handler that interprets a \<open>Shutdown\<close> action). A run is a list of events; \<open>None\<close> when
  one of them cannot happen where it stands.
\<close>

datatype event = EvStop | EvReactor | EvNotify notification | EvShutdownAction

definition step :: "netpoll \<Rightarrow> event \<Rightarrow> world \<Rightarrow> world option" where
  "step N e w =
     (case e of
        EvStop \<Rightarrow> stop_step w
      | EvReactor \<Rightarrow> reactor_step w
      | EvNotify n \<Rightarrow> polling_step N n w
      | EvShutdownAction \<Rightarrow> Some (w\<lparr>client := signalShutdown (client w)\<rparr>))"

fun run :: "netpoll \<Rightarrow> event list \<Rightarrow> world \<Rightarrow> world option" where
  "run N [] w = Some w"
| "run N (e # es) w = (case step N e w of None \<Rightarrow> None | Some w' \<Rightarrow> run N es w')"

subsection \<open>connect\<close>

text \<open>\<open>new(Client)\<close> and the assignments of \<open>connect\<close> before \<open>cl.start()\<close>.\<close>

definition new_Client :: "connection \<Rightarrow> Options \<Rightarrow> Client" where
  "new_Client con options =
     \<lparr>connection = con, opts = options, mainLoop = None, wg = 0, cond = NewCond,
      once = False, conn = None,
      codec = Some (case Codec options of None \<Rightarrow> BuiltInFrameCodec | Some c \<Rightarrow> c)\<rparr>"

text \<open>
  \<open>connect\<close>, up to the point where the deferred \<open>cl.stop()\<close> begins to run.
  \<open>OnConnectionEstablished\<close> is the user's callback, with the user's state \<open>'u\<close>. The
  result holds the error that \<open>connect\<close> returns (for a deferred \<open>stop\<close>: once \<open>stop\<close> has
  returned), the world in which the deferred \<open>cl.stop()\<close> begins if \<open>stop\<close> was deferred,
  and the user's state.
\<close>

record 'u connect_result =
  returns :: "error option"
  deferred_stop :: "world option"
  user :: 'u

definition connect ::
  "error + Poller \<Rightarrow> (Client \<Rightarrow> 'u \<Rightarrow> Action \<times> 'u) \<Rightarrow> 'u \<Rightarrow>
   connection \<Rightarrow> Options \<Rightarrow> 'u connect_result" where
  "connect OpenPoller OnConnectionEstablished u con options =
     (let cl = new_Client con options in
      case start OpenPoller cl of
        (Some err, cl', started) \<Rightarrow> \<lparr>returns = Some err, deferred_stop = None, user = u\<rparr>
      | (None, cl', started) \<Rightarrow>
          (let w = \<lparr>client = cl', stop_at = StopWaitForShutdown,
                     reactor_at = ReactorStart, launched = []\<rparr>
           in case OnConnectionEstablished cl' u of
                (NoneAction, u') \<Rightarrow> \<lparr>returns = None, deferred_stop = Some w, user = u'\<rparr>
              | (Shutdown, u') \<Rightarrow> \<lparr>returns = None, deferred_stop = Some w, user = u'\<rparr>
              | (Close, u') \<Rightarrow> \<lparr>returns = None, deferred_stop = Some w, user = u'\<rparr>))"

section \<open>Assumptions on the handlers, and invariants of a client\<close>

text \<open>
  The handlers \<open>loopClientIn\<close> and \<open>loopClientOut\<close> are parameters. Two properties of
  them are named here, to be assumed where a theorem needs them: that a handler leaves
  the notifier's job queue and its closed flag as they are (jobs are injected by
  \<open>Trigger\<close> and the notifier is closed by \<open>stop\<close> only), and that a handler returns a nil
  error (the spec, section 7: closing a connection is expressed by an \<open>Action\<close>, not by an
  error return).
\<close>

definition handlers_keep_jobs :: "netpoll \<Rightarrow> bool" where
  "handlers_keep_jobs N =
     (\<forall>lp c.
        asyncJobQueue (poller (snd (loopClientIn N lp c))) = asyncJobQueue (poller lp) \<and>
        poller_closed (poller (snd (loopClientIn N lp c))) = poller_closed (poller lp) \<and>
        asyncJobQueue (poller (snd (loopClientOut N lp c))) = asyncJobQueue (poller lp) \<and>
        poller_closed (poller (snd (loopClientOut N lp c))) = poller_closed (poller lp))"

definition handlers_return_nil :: "netpoll \<Rightarrow> bool" where
  "handlers_return_nil N =
     (\<forall>lp c. fst (loopClientIn N lp c) = None \<and> fst (loopClientOut N lp c) = None)"

text \<open>The job queue and the closed flag of the notifier of \<open>cl.mainLoop\<close>.\<close>

definition queued_jobs :: "world \<Rightarrow> job list" where
  "queued_jobs w =
     (case mainLoop (client w) of None \<Rightarrow> [] | Some lp \<Rightarrow> asyncJobQueue (poller lp))"

definition notifier_closed :: "world \<Rightarrow> bool" where
  "notifier_closed w =
     (case mainLoop (client w) of None \<Rightarrow> False | Some lp \<Rightarrow> poller_closed (poller lp))"

text \<open>\<open>stop\<close> has not yet injected its job.\<close>

definition before_injection :: "stop_pc \<Rightarrow> bool" where
  "before_injection pc = (pc = StopWaitForShutdown \<or> pc = StopParked \<or> pc = StopTrigger)"

text \<open>
  Invariants of the runs that begin where \<open>connect\<close> defers \<open>stop\<close>:
  \<^item> \<open>inv_sync\<close>: the condition variable was signalled once if \<open>once\<close> is done and never
    otherwise; \<open>stop\<close> is past its wait, or the reactor's goroutine past its deferred
    call, only if \<open>once\<close> is done;
  \<^item> \<open>inv_wg\<close>: the counter of the wait group is 1 until the reactor's goroutine has
    exited, and \<open>stop\<close> is past \<open>cl.wg.Wait()\<close> only when it has;
  \<^item> \<open>inv_poller\<close>: the notifier is closed exactly when \<open>stop\<close> has returned; no job is
    queued before \<open>stop\<close> injects one; afterwards the shutdown job is queued unless
    \<open>Polling\<close> has returned;
  \<^item> \<open>inv_waiting\<close>: nothing has signalled shutdown, \<open>stop\<close> is at its wait and the
    reactor is running.
\<close>

definition inv_sync :: "world \<Rightarrow> bool" where
  "inv_sync w =
     (signalled (cond (client w)) = (if once (client w) then 1 else 0) \<and>
      (0 < woken (cond (client w)) \<longrightarrow> once (client w)) \<and>
      (stop_at w \<noteq> StopWaitForShutdown \<and> stop_at w \<noteq> StopParked \<longrightarrow> once (client w)) \<and>
      (reactor_at w = ReactorWgDone \<or> reactor_at w = ReactorExited \<longrightarrow> once (client w)))"

definition inv_wg :: "world \<Rightarrow> bool" where
  "inv_wg w =
     (wg (client w) = (if reactor_at w = ReactorExited then 0 else 1) \<and>
      (stop_at w = StopClose \<or> stop_at w = StopReturned \<longrightarrow> reactor_at w = ReactorExited))"

definition inv_poller :: "world \<Rightarrow> bool" where
  "inv_poller w =
     (mainLoop (client w) \<noteq> None \<and>
      (notifier_closed w \<longleftrightarrow> stop_at w = StopReturned) \<and>
      (before_injection (stop_at w) \<longrightarrow> queued_jobs w = []) \<and>
      (\<not> before_injection (stop_at w) \<longrightarrow>
         shutdown_job \<in> set (queued_jobs w) \<or>
         (reactor_at w \<noteq> ReactorStart \<and> reactor_at w \<noteq> ReactorPolling)))"

definition inv_waiting :: "world \<Rightarrow> bool" where
  "inv_waiting w =
     (\<not> once (client w) \<and> woken (cond (client w)) = 0 \<and>
      (stop_at w = StopWaitForShutdown \<or> stop_at w = StopParked) \<and>
      (reactor_at w = ReactorStart \<or> reactor_at w = ReactorPolling) \<and>
      mainLoop (client w) \<noteq> None \<and> queued_jobs w = [] \<and> \<not> notifier_closed w)"

section \<open>Example inputs\<close>

text \<open>An environment in which every call of \<open>Serve\<close> and \<open>Connect\<close> succeeds; single
  calls are made to fail by updating it.\<close>

definition ok_env :: net_env where
  "ok_env =
     \<lparr>RemoveAll = (\<lambda>_. None),
      ReusePortListenPacket = (\<lambda>_ _. Inr 1), ListenPacket = (\<lambda>_ _. Inr 2),
      ReusePortListen = (\<lambda>_ _. Inr 3), Listen = (\<lambda>_ _. Inr 4),
      LocalAddr = (\<lambda>_. ''127.0.0.1:5555''),
      system = (\<lambda>l. Inr (l\<lparr>ln_f := Some 5, ln_fd := 5\<rparr>)),
      ResolveUDPAddr = (\<lambda>_ a. Inr a), DialUDP = (\<lambda>_ _. Inr 6),
      ResolveTCPAddr = (\<lambda>_ a. Inr a), DialTCP = (\<lambda>_ _. Inr 7),
      File = (\<lambda>_. Inr 8), Fd = (\<lambda>f. int f), SetNonblock = (\<lambda>_. None)\<rparr>"

text \<open>The event masks of Linux (\<open>EPOLLOUT\<close> or \<open>EPOLLIN | EPOLLPRI\<close>, with the error
  events) and handlers that do nothing.\<close>

definition example_netpoll :: netpoll where
  "example_netpoll =
     \<lparr>OutEvents = 0x201C, InEvents = 0x201B,
      loopClientIn = (\<lambda>lp c. (None, lp)), loopClientOut = (\<lambda>lp c. (None, lp))\<rparr>"

definition example_poller :: Poller where
  "example_poller = \<lparr>readers = {}, asyncJobQueue = [], poller_closed = False\<rparr>"

definition example_connection :: connection where
  "example_connection =
     \<lparr>con_lnaddr = None, con_pconn = Some (UDPConn 1), con_f = Some 2, con_fd = 5,
      con_network = ''udp'', con_addr = ''127.0.0.1:5555''\<rparr>"

text \<open>The world in which the deferred \<open>stop\<close> of the example client begins.\<close>

definition example_world :: world where
  "example_world =
     \<lparr>client = fst (snd (start (Inr example_poller) (new_Client example_connection new_Options))),
      stop_at = StopWaitForShutdown, reactor_at = ReactorStart, launched = []\<rparr>"

text \<open>A loop with two connections: descriptor 5 has nothing to send, descriptor 6 has
  one byte in its outbound store. Descriptor 9 is not in its table.\<close>

definition example_loop :: loop where
  "example_loop =
     \<lparr>idx = 0, poller = example_poller, packet = [],
      connections = [5 \<mapsto> \<lparr>conn_fd = 5, outboundBuffer = []\<rparr>,
                     6 \<mapsto> \<lparr>conn_fd = 6, outboundBuffer = [1]\<rparr>]\<rparr>"

text \<open>Handlers that report which of them ran, by the error they return.\<close>

definition reporting_In :: "unit handler" where
  "reporting_In lp c = (Some (Err ''in''), lp)"

definition reporting_Out :: "unit handler" where
  "reporting_Out lp c = (Some (Err ''out''), lp)"

text \<open>A server whose accept reactor has an empty connection table, with one worker and
  one native connection (descriptor 7) waiting at the listener (descriptor 3).\<close>

definition example_server :: server where
  "example_server =
     \<lparr>svr_mainLoop = \<lparr>idx = -1, poller = example_poller, packet = [], connections = Map.empty\<rparr>,
      subLoopGroup = [\<lparr>idx = 0, poller = example_poller, packet = [], connections = Map.empty\<rparr>],
      cursor = 0, backlog = [7]\<rparr>"

section \<open>Lemmas about splitting at the separator\<close>

text \<open>Without the separator, \<open>Split\<close> returns the string itself.\<close>

lemma Split_no_sep:
  "sep \<noteq> [] \<Longrightarrow> strings_Index s sep = None \<Longrightarrow> strings_Split s sep = [s]"
  by (simp add: strings_Split.simps)

text \<open>\<open>Index\<close> finds an instance of the separator, and the first one: the part before
  it has none.\<close>

lemma Index_Some_prefix:
  "strings_Index s sep = Some i \<Longrightarrow> prefix sep (drop i s)"
proof (induction s arbitrary: i)
  case Nil
  then show ?case by (simp split: if_splits)
next
  case (Cons c cs)
  then show ?case by (cases "prefix sep (c # cs)") auto
qed

lemma Index_Some_decomp:
  assumes "strings_Index s sep = Some i"
  shows "s = take i s @ sep @ drop (i + length sep) s"
proof -
  from assms have "prefix sep (drop i s)" by (rule Index_Some_prefix)
  then obtain r where r: "drop i s = sep @ r" by (auto simp: prefix_def)
  then have "drop (length sep) (drop i s) = r" by simp
  then have "drop (i + length sep) s = r" by (simp add: add.commute)
  with r have "drop i s = sep @ drop (i + length sep) s" by simp
  then show ?thesis by (metis append_take_drop_id)
qed

lemma Index_take_None:
  "sep \<noteq> [] \<Longrightarrow> strings_Index s sep = Some i \<Longrightarrow> strings_Index (take i s) sep = None"
proof (induction s arbitrary: i)
  case Nil
  then show ?case by (simp split: if_splits)
next
  case (Cons c cs)
  show ?case
  proof (cases "prefix sep (c # cs)")
    case True
    with Cons.prems show ?thesis by simp
  next
    case False
    with Cons.prems obtain k where k: "strings_Index cs sep = Some k" "i = Suc k"
      by auto
    from Cons.IH [OF Cons.prems(1) k(1)] have IH: "strings_Index (take k cs) sep = None" .
    have "\<not> prefix sep (c # take k cs)"
    proof
      assume "prefix sep (c # take k cs)"
      moreover have "prefix (c # take k cs) (c # cs)" by (simp add: take_is_prefix)
      ultimately have "prefix sep (c # cs)" by (rule prefix_order.trans)
      with False show False ..
    qed
    with IH k show ?thesis by simp
  qed
qed

text \<open>No instance of \<open>://\<close> overlaps another, or begins in a part that has none and
  ends in a separator behind it: the first instance in \<open>a @ ''://'' @ r\<close> is at the length
  of \<open>a\<close> when \<open>a\<close> has none.\<close>

lemma Index_first_sep:
  "strings_Index a ''://'' = None \<Longrightarrow> strings_Index (a @ ''://'' @ r) ''://'' = Some (length a)"
proof (induction a)
  case Nil
  then show ?case by simp
next
  case (Cons x a)
  from Cons.prems have np: "\<not> prefix ''://'' (x # a)" and none: "strings_Index a ''://'' = None"
    by (auto split: if_splits)
  have "\<not> prefix ''://'' (x # a @ ''://'' @ r)"
  proof (cases a)
    case Nil
    then show ?thesis by simp
  next
    case (Cons y a')
    note a = this
    show ?thesis
    proof (cases a')
      case Nil
      with a show ?thesis by simp
    next
      case (Cons z a'')
      with a np show ?thesis by simp
    qed
  qed
  with Cons.IH [OF none] show ?case by simp
qed

lemma Split_first_sep:
  assumes "strings_Index a ''://'' = None"
  shows "strings_Split (a @ ''://'' @ r) ''://'' = a # strings_Split r ''://''"
proof -
  have "strings_Index (a @ ''://'' @ r) ''://'' = Some (length a)"
    using assms by (rule Index_first_sep)
  then show ?thesis
    by (subst strings_Split.simps) simp
qed

lemma Split_hd_nonempty: "\<exists>x xs. strings_Split s ''://'' = x # xs"
  by (subst strings_Split.simps) (simp split: option.split)

lemma Contains_sep_append: "strings_Contains (a @ ''://'' @ r) ''://''"
proof (induction a)
  case Nil
  show ?case by (simp add: strings_Contains_def)
next
  case (Cons x a)
  then show ?case by (auto simp: strings_Contains_def)
qed

text \<open>\<open>parseAddr\<close> on an address with a separator: the part before the first
  separator, and the first part of what follows it. It never panics.\<close>

lemma parseAddr_two_parts:
  assumes "\<not> strings_Contains a ''://''"
  shows "parseAddr (a @ ''://'' @ r) = Some (a, hd (strings_Split r ''://''))"
proof -
  from assms have a: "strings_Index a ''://'' = None" by (simp add: strings_Contains_def)
  obtain x xs where x: "strings_Split r ''://'' = x # xs" using Split_hd_nonempty by blast
  have "strings_Split (a @ ''://'' @ r) ''://'' = a # x # xs"
    using Split_first_sep [OF a] x by simp
  then show ?thesis
    using Contains_sep_append [of a r] x by (simp add: parseAddr_def index_def)
qed

lemma parseAddr_total: "\<exists>network address. parseAddr addr = Some (network, address)"
proof (cases "strings_Contains addr ''://''")
  case False
  then show ?thesis by (simp add: parseAddr_def)
next
  case True
  then obtain i where i: "strings_Index addr ''://'' = Some i"
    by (auto simp: strings_Contains_def)
  define a where "a = take i addr"
  define r where "r = drop (i + length ''://'') addr"
  have d: "addr = a @ ''://'' @ r"
    using Index_Some_decomp [OF i] by (simp add: a_def r_def)
  have "\<not> strings_Contains a ''://''"
    using Index_take_None [OF _ i] by (simp add: strings_Contains_def a_def)
  then have "parseAddr (a @ ''://'' @ r) = Some (a, hd (strings_Split r ''://''))"
    by (rule parseAddr_two_parts)
  with d show ?thesis by simp
qed

text \<open>Two instances counted by \<open>Count\<close> cut the string in three.\<close>

lemma Count_ge2_decomp:
  assumes "2 \<le> strings_Count s ''://''"
  shows "\<exists>a b c. s = a @ ''://'' @ b @ ''://'' @ c \<and>
           \<not> strings_Contains a ''://'' \<and> \<not> strings_Contains b ''://''"
proof -
  from assms obtain i where i: "strings_Index s ''://'' = Some i"
    by (subst (asm) strings_Count.simps) (auto split: option.splits)
  define r where "r = drop (i + length ''://'') s"
  from assms i have "1 \<le> strings_Count r ''://''"
    by (subst (asm) strings_Count.simps) (simp add: r_def)
  then obtain j where j: "strings_Index r ''://'' = Some j"
    by (subst (asm) strings_Count.simps) (auto split: option.splits)
  have "s = take i s @ ''://'' @ r"
    using Index_Some_decomp [OF i] by (simp add: r_def)
  moreover have "r = take j r @ ''://'' @ drop (j + length ''://'') r"
    using Index_Some_decomp [OF j] .
  ultimately have "s = take i s @ ''://'' @ take j r @ ''://'' @ drop (j + length ''://'') r"
    by simp
  moreover have "\<not> strings_Contains (take i s) ''://''"
    using Index_take_None [OF _ i] by (simp add: strings_Contains_def)
  moreover have "\<not> strings_Contains (take j r) ''://''"
    using Index_take_None [OF _ j] by (simp add: strings_Contains_def)
  ultimately show ?thesis by blast
qed

section \<open>Lemmas about the client's transition system\<close>

lemma shutdown_job_result [simp]: "shutdown_job () = Some errShutdown"
  by (simp add: shutdown_job_def)

lemma signalShutdown_simps:
  "once (signalShutdown cl)"
  "wg (signalShutdown cl) = wg cl"
  "mainLoop (signalShutdown cl) = mainLoop cl"
  "signalled (cond (signalShutdown cl)) = (if once cl then signalled (cond cl) else signalled (cond cl) + 1)"
  by (simp_all add: signalShutdown_def Cond_Signal_def)

text \<open>The cases of a step, and of a notification delivered in \<open>Polling\<close>.\<close>

lemma step_cases:
  assumes "step N e w = Some w'"
  obtains "e = EvStop" "stop_step w = Some w'"
  | "e = EvReactor" "reactor_step w = Some w'"
  | n where "e = EvNotify n" "polling_step N n w = Some w'"
  | "e = EvShutdownAction" "w' = w\<lparr>client := signalShutdown (client w)\<rparr>"
  using assms by (cases e) (auto simp: step_def)

text \<open>Every step keeps \<open>inv_sync\<close>.\<close>

lemma stop_step_inv_sync: "inv_sync w \<Longrightarrow> stop_step w = Some w' \<Longrightarrow> inv_sync w'"
  by (cases "stop_at w")
    (auto simp: stop_step_def inv_sync_def Let_def waitForShutdown_park_def
      waitForShutdown_resume_def Cond_Wait_park_def Cond_Wait_resume_def
      split: option.splits if_splits)

lemma reactor_step_inv_sync: "inv_sync w \<Longrightarrow> reactor_step w = Some w' \<Longrightarrow> inv_sync w'"
  by (cases "reactor_at w")
    (auto simp: reactor_step_def inv_sync_def Let_def signalShutdown_def Cond_Signal_def
      split: option.splits if_splits)

lemma polling_step_inv_sync: "inv_sync w \<Longrightarrow> polling_step N n w = Some w' \<Longrightarrow> inv_sync w'"
  by (cases n)
    (auto simp: polling_step_def inv_sync_def Let_def
      split: option.splits if_splits list.splits prod.splits)

lemma signal_inv_sync: "inv_sync w \<Longrightarrow> inv_sync (w\<lparr>client := signalShutdown (client w)\<rparr>)"
  by (auto simp: inv_sync_def signalShutdown_def Cond_Signal_def)

lemma step_inv_sync:
  assumes "inv_sync w" and "step N e w = Some w'"
  shows "inv_sync w'"
  using assms(2)
proof (rule step_cases)
  assume "stop_step w = Some w'"
  with assms show ?thesis by (blast intro: stop_step_inv_sync)
next
  assume "reactor_step w = Some w'"
  with assms show ?thesis by (blast intro: reactor_step_inv_sync)
next
  fix n assume "polling_step N n w = Some w'"
  with assms show ?thesis by (blast intro: polling_step_inv_sync)
next
  assume "w' = w\<lparr>client := signalShutdown (client w)\<rparr>"
  with assms show ?thesis by (simp add: signal_inv_sync)
qed

text \<open>Every step keeps \<open>inv_wg\<close>.\<close>

lemma stop_step_inv_wg: "inv_wg w \<Longrightarrow> stop_step w = Some w' \<Longrightarrow> inv_wg w'"
  by (cases "stop_at w")
    (auto simp: stop_step_def inv_wg_def Let_def waitForShutdown_park_def
      waitForShutdown_resume_def
      split: option.splits if_splits)

lemma reactor_step_inv_wg: "inv_wg w \<Longrightarrow> reactor_step w = Some w' \<Longrightarrow> inv_wg w'"
  by (cases "reactor_at w")
    (auto simp: reactor_step_def inv_wg_def Let_def signalShutdown_simps
      split: option.splits if_splits)

lemma polling_step_inv_wg: "inv_wg w \<Longrightarrow> polling_step N n w = Some w' \<Longrightarrow> inv_wg w'"
  by (cases n)
    (auto simp: polling_step_def inv_wg_def Let_def
      split: option.splits if_splits list.splits prod.splits)

lemma signal_inv_wg: "inv_wg w \<Longrightarrow> inv_wg (w\<lparr>client := signalShutdown (client w)\<rparr>)"
  by (auto simp: inv_wg_def signalShutdown_simps)

lemma step_inv_wg:
  assumes "inv_wg w" and "step N e w = Some w'"
  shows "inv_wg w'"
  using assms(2)
proof (rule step_cases)
  assume "stop_step w = Some w'"
  with assms show ?thesis by (blast intro: stop_step_inv_wg)
next
  assume "reactor_step w = Some w'"
  with assms show ?thesis by (blast intro: reactor_step_inv_wg)
next
  fix n assume "polling_step N n w = Some w'"
  with assms show ?thesis by (blast intro: polling_step_inv_wg)
next
  assume "w' = w\<lparr>client := signalShutdown (client w)\<rparr>"
  with assms show ?thesis by (simp add: signal_inv_wg)
qed

text \<open>Every step keeps \<open>inv_poller\<close>, if the handlers leave the job queue and the closed
  flag as they are.\<close>

lemma callback_keeps:
  assumes "handlers_keep_jobs N"
    and "Client_mainReactor_callback (OutEvents N) (InEvents N) (loopClientIn N) (loopClientOut N)
           lp d ev j = (err, lp')"
  shows "asyncJobQueue (poller lp') = asyncJobQueue (poller lp) \<and>
         poller_closed (poller lp') = poller_closed (poller lp)"
  using assms
  by (auto simp: Client_mainReactor_callback_def handlers_keep_jobs_def
      split: option.splits bool.splits if_splits)
    (metis snd_conv)+

lemma stop_step_inv_poller: "inv_poller w \<Longrightarrow> stop_step w = Some w' \<Longrightarrow> inv_poller w'"
  by (cases "stop_at w")
    (auto simp: stop_step_def inv_poller_def Let_def waitForShutdown_park_def
      waitForShutdown_resume_def queued_jobs_def notifier_closed_def before_injection_def Trigger_def Poller_Close_def
      split: option.splits if_splits)

lemma reactor_step_inv_poller:
  assumes "inv_poller w" and "reactor_step w = Some w'"
  shows "inv_poller w'"
proof (cases "reactor_at w")
  case ReactorStart
  with assms show ?thesis
    by (auto simp: reactor_step_def inv_poller_def Let_def queued_jobs_def notifier_closed_def)
next
  case ReactorPolling
  with assms show ?thesis by (simp add: reactor_step_def)
next
  case ReactorDeferred
  with assms have "w' = w\<lparr>client := signalShutdown (client w), reactor_at := ReactorWgDone\<rparr>"
    by (simp add: reactor_step_def Let_def)
  with assms(1) show ?thesis
    by (simp add: inv_poller_def queued_jobs_def notifier_closed_def signalShutdown_simps)
next
  case ReactorWgDone
  with assms have "w' = w\<lparr>client := (client w)\<lparr>wg := wg (client w) - 1\<rparr>,
      reactor_at := ReactorExited\<rparr>"
    by (simp add: reactor_step_def Let_def split: if_splits)
  with assms(1) show ?thesis
    by (simp add: inv_poller_def queued_jobs_def notifier_closed_def)
next
  case ReactorExited
  with assms show ?thesis by (simp add: reactor_step_def)
qed

lemma polling_step_cases:
  assumes "polling_step N n w = Some w'"
  obtains (Ready) d ev lp err lp' where
      "n = Ready d ev" "reactor_at w = ReactorPolling" "mainLoop (client w) = Some lp"
      "Client_mainReactor_callback (OutEvents N) (InEvents N) (loopClientIn N) (loopClientOut N)
         lp d ev None = (err, lp')"
      "w' = w\<lparr>client := (client w)\<lparr>mainLoop := Some lp'\<rparr>,
                reactor_at := (if err = None then ReactorPolling else ReactorDeferred)\<rparr>"
  | (Injected) lp j js where
      "n = Injected" "reactor_at w = ReactorPolling" "mainLoop (client w) = Some lp"
      "asyncJobQueue (poller lp) = j # js"
      "w' = w\<lparr>client := (client w)\<lparr>mainLoop :=
                  Some (lp\<lparr>poller := (poller lp)\<lparr>asyncJobQueue := js\<rparr>\<rparr>)\<rparr>,
                reactor_at := (if j () = None then ReactorPolling else ReactorDeferred)\<rparr>"
proof (cases n)
  case (Ready d ev)
  from assms have p: "reactor_at w = ReactorPolling"
    by (simp add: polling_step_def Let_def split: if_splits)
  from assms p obtain lp where lp: "mainLoop (client w) = Some lp"
    by (cases "mainLoop (client w)") (simp_all add: polling_step_def Let_def)
  obtain err lp' where cb:
    "Client_mainReactor_callback (OutEvents N) (InEvents N) (loopClientIn N) (loopClientOut N)
       lp d ev None = (err, lp')"
    by (cases "Client_mainReactor_callback (OutEvents N) (InEvents N) (loopClientIn N)
       (loopClientOut N) lp d ev None")
  from assms p lp cb Ready have
    "w' = w\<lparr>client := (client w)\<lparr>mainLoop := Some lp'\<rparr>,
              reactor_at := (if err = None then ReactorPolling else ReactorDeferred)\<rparr>"
    by (simp add: polling_step_def Let_def)
  with Ready p lp cb show ?thesis by (rule that(1))
next
  case Injected
  from assms have p: "reactor_at w = ReactorPolling"
    by (simp add: polling_step_def Let_def split: if_splits)
  from assms p obtain lp where lp: "mainLoop (client w) = Some lp"
    by (cases "mainLoop (client w)") (simp_all add: polling_step_def Let_def)
  from assms p lp Injected obtain j js where q: "asyncJobQueue (poller lp) = j # js"
    by (cases "asyncJobQueue (poller lp)") (simp_all add: polling_step_def Let_def)
  from assms p lp q Injected have
    "w' = w\<lparr>client := (client w)\<lparr>mainLoop :=
                Some (lp\<lparr>poller := (poller lp)\<lparr>asyncJobQueue := js\<rparr>\<rparr>)\<rparr>,
              reactor_at := (if j () = None then ReactorPolling else ReactorDeferred)\<rparr>"
    by (simp add: polling_step_def Let_def)
  with Injected p lp q show ?thesis by (rule that(2))
qed

lemma polling_step_inv_poller:
  assumes "handlers_keep_jobs N" and "inv_poller w" and "polling_step N n w = Some w'"
  shows "inv_poller w'"
  using assms(3)
proof (cases rule: polling_step_cases)
  case (Ready d ev lp err lp')
  from callback_keeps [OF assms(1) Ready(4)]
  have "queued_jobs w' = queued_jobs w" and "notifier_closed w' = notifier_closed w"
    using Ready by (simp_all add: queued_jobs_def notifier_closed_def)
  with assms(2) Ready show ?thesis
    by (simp add: inv_poller_def)
next
  case (Injected lp j js)
  then have c: "notifier_closed w' = notifier_closed w" and s: "stop_at w' = stop_at w"
    and m: "mainLoop (client w') \<noteq> None" and js: "queued_jobs w = j # js" "queued_jobs w' = js"
    by (simp_all add: queued_jobs_def notifier_closed_def)
  from assms(2) js have ne: "\<not> before_injection (stop_at w)" by (auto simp: inv_poller_def)
  show ?thesis
  proof (cases "j = shutdown_job")
    case True
    with Injected have "reactor_at w' = ReactorDeferred" by simp
    with assms(2) c s m ne show ?thesis by (simp add: inv_poller_def)
  next
    case False
    with assms(2) ne js have "shutdown_job \<in> set (queued_jobs w')"
      using Injected(2) by (auto simp: inv_poller_def)
    with assms(2) c s m ne show ?thesis by (simp add: inv_poller_def)
  qed
qed

lemma signal_inv_poller: "inv_poller w \<Longrightarrow> inv_poller (w\<lparr>client := signalShutdown (client w)\<rparr>)"
  by (auto simp: inv_poller_def signalShutdown_simps queued_jobs_def notifier_closed_def)

lemma step_inv_poller:
  assumes "handlers_keep_jobs N" and "inv_poller w" and "step N e w = Some w'"
  shows "inv_poller w'"
  using assms(3)
proof (rule step_cases)
  assume "stop_step w = Some w'"
  with assms show ?thesis by (blast intro: stop_step_inv_poller)
next
  assume "reactor_step w = Some w'"
  with assms show ?thesis by (blast intro: reactor_step_inv_poller)
next
  fix n assume "polling_step N n w = Some w'"
  with assms show ?thesis by (blast intro: polling_step_inv_poller)
next
  assume "w' = w\<lparr>client := signalShutdown (client w)\<rparr>"
  with assms show ?thesis by (simp add: signal_inv_poller)
qed

text \<open>\<open>once\<close> stays done, and is done after a call of \<open>signalShutdown\<close>.\<close>

lemma stop_step_once: "stop_step w = Some w' \<Longrightarrow> once (client w') = once (client w)"
  by (cases "stop_at w")
    (auto simp: stop_step_def Let_def waitForShutdown_park_def waitForShutdown_resume_def
      split: option.splits if_splits)

lemma reactor_step_once: "reactor_step w = Some w' \<Longrightarrow> once (client w) \<Longrightarrow> once (client w')"
  by (cases "reactor_at w")
    (auto simp: reactor_step_def Let_def signalShutdown_simps split: option.splits if_splits)

lemma polling_step_once: "polling_step N n w = Some w' \<Longrightarrow> once (client w') = once (client w)"
  by (erule polling_step_cases) simp_all

lemma step_once:
  assumes "step N e w = Some w'" and "once (client w)"
  shows "once (client w')"
  using assms(1)
proof (rule step_cases)
  assume "stop_step w = Some w'"
  with assms(2) show ?thesis by (simp add: stop_step_once)
next
  assume "reactor_step w = Some w'"
  then show ?thesis using assms(2) by (rule reactor_step_once)
next
  fix n assume "polling_step N n w = Some w'"
  with assms(2) show ?thesis by (simp add: polling_step_once)
next
  assume "w' = w\<lparr>client := signalShutdown (client w)\<rparr>"
  then show ?thesis by (simp add: signalShutdown_simps)
qed

lemma run_once: "run N es w = Some w' \<Longrightarrow> once (client w) \<Longrightarrow> once (client w')"
proof (induction es arbitrary: w)
  case Nil
  then show ?case by simp
next
  case (Cons e es)
  then obtain w1 where s: "step N e w = Some w1" and r: "run N es w1 = Some w'"
    by (auto split: option.splits)
  from step_once [OF s Cons.prems(2)] Cons.IH [OF r] show ?case by simp
qed

lemma run_signalled: "run N es w = Some w' \<Longrightarrow> EvShutdownAction \<in> set es \<Longrightarrow> once (client w')"
proof (induction es arbitrary: w)
  case Nil
  then show ?case by simp
next
  case (Cons e es)
  then obtain w1 where s: "step N e w = Some w1" and r: "run N es w1 = Some w'"
    by (auto split: option.splits)
  show ?case
  proof (cases "e = EvShutdownAction")
    case True
    with s have "once (client w1)" by (auto simp: step_def signalShutdown_simps)
    with r show ?thesis by (rule run_once)
  next
    case False
    with Cons.prems(2) have "EvShutdownAction \<in> set es" by simp
    with r show ?thesis by (rule Cons.IH)
  qed
qed

text \<open>Runs keep what steps keep.\<close>

lemma run_inv_sync: "run N es w = Some w' \<Longrightarrow> inv_sync w \<Longrightarrow> inv_sync w'"
proof (induction es arbitrary: w)
  case Nil
  then show ?case by simp
next
  case (Cons e es)
  then obtain w1 where s: "step N e w = Some w1" and r: "run N es w1 = Some w'"
    by (auto split: option.splits)
  from step_inv_sync [OF Cons.prems(2) s] Cons.IH [OF r] show ?case by simp
qed

lemma run_inv_wg: "run N es w = Some w' \<Longrightarrow> inv_wg w \<Longrightarrow> inv_wg w'"
proof (induction es arbitrary: w)
  case Nil
  then show ?case by simp
next
  case (Cons e es)
  then obtain w1 where s: "step N e w = Some w1" and r: "run N es w1 = Some w'"
    by (auto split: option.splits)
  from step_inv_wg [OF Cons.prems(2) s] Cons.IH [OF r] show ?case by simp
qed

lemma run_inv_poller:
  "handlers_keep_jobs N \<Longrightarrow> run N es w = Some w' \<Longrightarrow> inv_poller w \<Longrightarrow> inv_poller w'"
proof (induction es arbitrary: w)
  case Nil
  then show ?case by simp
next
  case (Cons e es)
  then obtain w1 where s: "step N e w = Some w1" and r: "run N es w1 = Some w'"
    by (auto split: option.splits)
  from step_inv_poller [OF Cons.prems(1,3) s] Cons.IH [OF Cons.prems(1) r] show ?case by simp
qed

text \<open>The world in which \<open>connect\<close> defers \<open>stop\<close>, and the invariants there.\<close>

lemma connect_deferred:
  assumes "deferred_stop (connect OpenPoller h u con options) = Some w0"
  obtains p where "OpenPoller = Inr p"
    "w0 = \<lparr>client = fst (snd (start (Inr p) (new_Client con options))),
           stop_at = StopWaitForShutdown, reactor_at = ReactorStart, launched = []\<rparr>"
proof (cases OpenPoller)
  case (Inl err)
  with assms show ?thesis
    by (simp add: connect_def start_def activateReactors_def Let_def)
next
  case (Inr p)
  with assms have
    "w0 = \<lparr>client = fst (snd (start (Inr p) (new_Client con options))),
           stop_at = StopWaitForShutdown, reactor_at = ReactorStart, launched = []\<rparr>"
    by (cases "h (fst (snd (start (Inr p) (new_Client con options)))) u";
        cases "fst (h (fst (snd (start (Inr p) (new_Client con options)))) u)")
      (auto simp: connect_def start_def activateReactors_def Let_def)
  with Inr show ?thesis by (rule that)
qed

lemma initial_inv_sync:
  "deferred_stop (connect OpenPoller h u con options) = Some w0 \<Longrightarrow> inv_sync w0"
  by (erule connect_deferred)
    (simp add: inv_sync_def start_def activateReactors_def Let_def new_Client_def NewCond_def)

lemma initial_inv_wg:
  "deferred_stop (connect OpenPoller h u con options) = Some w0 \<Longrightarrow> inv_wg w0"
  by (erule connect_deferred)
    (simp add: inv_wg_def start_def activateReactors_def Let_def new_Client_def NewCond_def)

lemma initial_inv_poller:
  "deferred_stop (connect (Inr p) h u con options) = Some w0 \<Longrightarrow>
   asyncJobQueue p = [] \<Longrightarrow> \<not> poller_closed p \<Longrightarrow> inv_poller w0"
  by (erule connect_deferred)
    (simp add: inv_poller_def start_def activateReactors_def Let_def new_Client_def
      queued_jobs_def notifier_closed_def before_injection_def AddRead_def)

text \<open>The order of the places of \<open>stop\<close>; \<open>Polling\<close> returns only after the injection if
  the handlers return nil errors.\<close>

lemma callback_nil:
  "handlers_return_nil N \<Longrightarrow>
   fst (Client_mainReactor_callback (OutEvents N) (InEvents N) (loopClientIn N) (loopClientOut N)
          lp d ev j) = None"
  by (simp add: Client_mainReactor_callback_def handlers_return_nil_def
      split: option.splits bool.splits)

lemma stop_step_order:
  "stop_step w = Some w' \<Longrightarrow>
   (stop_at w, stop_at w') \<in>
     {(StopWaitForShutdown, StopParked), (StopParked, StopTrigger), (StopTrigger, StopWgWait),
      (StopWgWait, StopClose), (StopClose, StopReturned)}"
  by (cases "stop_at w")
    (auto simp: stop_step_def Let_def split: option.splits if_splits)

lemma stop_step_reactor: "stop_step w = Some w' \<Longrightarrow> reactor_at w' = reactor_at w"
  by (cases "stop_at w")
    (auto simp: stop_step_def Let_def split: option.splits if_splits)

lemma reactor_step_stop: "reactor_step w = Some w' \<Longrightarrow> stop_at w' = stop_at w"
  by (cases "reactor_at w")
    (auto simp: reactor_step_def Let_def split: option.splits if_splits)

lemma reactor_step_ended:
  "reactor_step w = Some w' \<Longrightarrow> reactor_at w' \<noteq> ReactorStart \<and>
     (reactor_at w' = ReactorPolling \<or>
      (reactor_at w \<noteq> ReactorStart \<and> reactor_at w \<noteq> ReactorPolling))"
  by (cases "reactor_at w")
    (auto simp: reactor_step_def Let_def split: option.splits if_splits)

lemma step_polling_ended:
  assumes nil: "handlers_return_nil N" and p: "inv_poller w"
    and i: "reactor_at w \<noteq> ReactorStart \<and> reactor_at w \<noteq> ReactorPolling \<longrightarrow> \<not> before_injection (stop_at w)"
    and s: "step N e w = Some w'"
  shows "reactor_at w' \<noteq> ReactorStart \<and> reactor_at w' \<noteq> ReactorPolling \<longrightarrow> \<not> before_injection (stop_at w')"
  using s
proof (rule step_cases)
  assume a: "stop_step w = Some w'"
  from stop_step_order [OF a] stop_step_reactor [OF a] i show ?thesis
    by (auto simp: before_injection_def)
next
  assume a: "reactor_step w = Some w'"
  from reactor_step_ended [OF a] reactor_step_stop [OF a] i show ?thesis by auto
next
  fix n assume "polling_step N n w = Some w'"
  then show ?thesis
  proof (cases rule: polling_step_cases)
    case (Ready d ev lp err lp')
    from callback_nil [OF nil, of lp d ev None] Ready(4) have "err = None" by simp
    with Ready show ?thesis by simp
  next
    case (Injected lp j js)
    then have "queued_jobs w \<noteq> []" by (simp add: queued_jobs_def)
    with p have "\<not> before_injection (stop_at w)" by (auto simp: inv_poller_def)
    with Injected show ?thesis by simp
  qed
next
  assume "w' = w\<lparr>client := signalShutdown (client w)\<rparr>"
  with i show ?thesis by simp
qed

lemma run_polling_ended:
  assumes "handlers_keep_jobs N" and "handlers_return_nil N"
  shows "run N es w = Some w' \<Longrightarrow> inv_poller w \<Longrightarrow>
    (reactor_at w \<noteq> ReactorStart \<and> reactor_at w \<noteq> ReactorPolling \<longrightarrow> \<not> before_injection (stop_at w)) \<Longrightarrow>
    (reactor_at w' \<noteq> ReactorStart \<and> reactor_at w' \<noteq> ReactorPolling \<longrightarrow> \<not> before_injection (stop_at w'))"
proof (induction es arbitrary: w)
  case Nil
  then show ?case by simp
next
  case (Cons e es)
  then obtain w1 where s: "step N e w = Some w1" and r: "run N es w1 = Some w'"
    by (auto split: option.splits)
  from step_inv_poller [OF assms(1) Cons.prems(2) s] have p1: "inv_poller w1" .
  from step_polling_ended [OF assms(2) Cons.prems(2,3) s] Cons.IH [OF r p1]
  show ?case by blast
qed

text \<open>Without a call of \<open>signalShutdown\<close> from another path, and with handlers that
  return nil errors, the client keeps waiting.\<close>

lemma step_inv_waiting:
  assumes keep: "handlers_keep_jobs N" and nil: "handlers_return_nil N"
    and i: "inv_waiting w" and ne: "e \<noteq> EvShutdownAction" and s: "step N e w = Some w'"
  shows "inv_waiting w'"
  using s
proof (rule step_cases)
  assume a: "stop_step w = Some w'"
  from i have "stop_at w = StopWaitForShutdown \<or> stop_at w = StopParked"
    by (simp add: inv_waiting_def)
  then show ?thesis
  proof
    assume "stop_at w = StopWaitForShutdown"
    with a i show ?thesis
      by (auto simp: stop_step_def Let_def inv_waiting_def waitForShutdown_park_def
          Cond_Wait_park_def queued_jobs_def notifier_closed_def)
  next
    assume "stop_at w = StopParked"
    with a i show ?thesis
      by (simp add: stop_step_def Let_def inv_waiting_def waitForShutdown_resume_def
          Cond_Wait_resume_def)
  qed
next
  assume a: "reactor_step w = Some w'"
  from i have "reactor_at w = ReactorStart \<or> reactor_at w = ReactorPolling"
    by (simp add: inv_waiting_def)
  then show ?thesis
  proof
    assume "reactor_at w = ReactorStart"
    with a i show ?thesis
      by (auto simp: reactor_step_def Let_def inv_waiting_def queued_jobs_def notifier_closed_def
          split: option.splits)
  next
    assume "reactor_at w = ReactorPolling"
    with a show ?thesis by (simp add: reactor_step_def Let_def)
  qed
next
  fix n assume "polling_step N n w = Some w'"
  then show ?thesis
  proof (cases rule: polling_step_cases)
    case (Ready d ev lp err lp')
    from callback_nil [OF nil, of lp d ev None] Ready(4) have "err = None" by simp
    moreover from callback_keeps [OF keep Ready(4)]
    have "queued_jobs w' = queued_jobs w" and "notifier_closed w' = notifier_closed w"
      using Ready by (simp_all add: queued_jobs_def notifier_closed_def)
    ultimately show ?thesis using i Ready by (simp add: inv_waiting_def)
  next
    case (Injected lp j js)
    then have "queued_jobs w \<noteq> []" by (simp add: queued_jobs_def)
    with i show ?thesis by (simp add: inv_waiting_def)
  qed
next
  assume "e = EvShutdownAction"
  with ne show ?thesis by simp
qed

lemma run_inv_waiting:
  assumes "handlers_keep_jobs N" and "handlers_return_nil N"
  shows "run N es w = Some w' \<Longrightarrow> inv_waiting w \<Longrightarrow> EvShutdownAction \<notin> set es \<Longrightarrow>
    inv_waiting w'"
proof (induction es arbitrary: w)
  case Nil
  then show ?case by simp
next
  case (Cons e es)
  then obtain w1 where s: "step N e w = Some w1" and r: "run N es w1 = Some w'"
    by (auto split: option.splits)
  from Cons.prems(3) have ne: "e \<noteq> EvShutdownAction" and nes: "EvShutdownAction \<notin> set es"
    by auto
  from step_inv_waiting [OF assms Cons.prems(2) ne s] have "inv_waiting w1" .
  from Cons.IH [OF r this nes] show ?case .
qed

lemma initial_inv_waiting:
  "deferred_stop (connect (Inr p) h u con options) = Some w0 \<Longrightarrow>
   asyncJobQueue p = [] \<Longrightarrow> \<not> poller_closed p \<Longrightarrow> inv_waiting w0"
  by (erule connect_deferred)
    (simp add: inv_waiting_def start_def activateReactors_def Let_def new_Client_def
      queued_jobs_def notifier_closed_def AddRead_def NewCond_def)

text \<open>Repeated calls of \<open>signalShutdown\<close>.\<close>

lemma signalShutdown_twice: "signalShutdown (signalShutdown cl) = signalShutdown cl"
  by (simp add: signalShutdown_def)

lemma funpow_signalShutdown:
  "0 < n \<Longrightarrow> (signalShutdown ^^ n) cl = signalShutdown cl"
proof (induction n)
  case 0
  then show ?case by simp
next
  case (Suc n)
  show ?case
  proof (cases "n = 0")
    case True
    then show ?thesis by simp
  next
    case False
    with Suc.IH have "(signalShutdown ^^ n) cl = signalShutdown cl" by simp
    then have "(signalShutdown ^^ Suc n) cl = signalShutdown (signalShutdown cl)"
      by (simp only: funpow.simps o_apply)
    then show ?thesis by (simp only: signalShutdown_twice)
  qed
qed

section \<open>Evaluation of the examples\<close>

lemma example_deferred:
  "deferred_stop (connect (Inr example_poller) (\<lambda>cl u. (a, Suc u)) 0 example_connection new_Options)
     = Some example_world"
  by (cases a) (simp_all add: connect_def example_world_def Let_def start_def activateReactors_def)

lemma example_keep: "handlers_keep_jobs example_netpoll"
  by (simp add: handlers_keep_jobs_def example_netpoll_def)

lemma example_nil: "handlers_return_nil example_netpoll"
  by (simp add: handlers_return_nil_def example_netpoll_def)

lemmas world_defs =
  example_world_def start_def activateReactors_def new_Client_def NewCond_def
  example_poller_def example_connection_def example_netpoll_def new_Options_def
  step_def stop_step_def reactor_step_def polling_step_def Let_def
  waitForShutdown_park_def waitForShutdown_resume_def Cond_Wait_park_def Cond_Wait_resume_def
  signalShutdown_def Cond_Signal_def Trigger_def Poller_Close_def AddRead_def
  Client_mainReactor_callback_def Client_activateMainReactor_go_def newClientConn_def
  IsEmpty_def shutdown_job_def

lemma example_run_complete:
  "\<exists>w. run example_netpoll
     [EvReactor, EvStop, EvNotify (Ready 5 1), EvShutdownAction, EvStop, EvStop,
      EvNotify Injected, EvReactor, EvReactor, EvStop, EvStop] example_world = Some w \<and>
     stop_at w = StopReturned"
  by (simp add: world_defs)

lemma example_run_waiting:
  "\<exists>w. run example_netpoll [EvReactor, EvStop, EvNotify (Ready 5 1)] example_world = Some w"
  by (simp add: world_defs)

lemma example_run_signals:
  "\<exists>w. run example_netpoll
     [EvShutdownAction, EvReactor, EvShutdownAction, EvNotify (Ready 5 1), EvShutdownAction]
     example_world = Some w"
  by (simp add: world_defs)

lemma parseAddr_tcp_example: "parseAddr ''tcp://:9000'' = Some (''tcp'', '':9000'')"
  using parseAddr_two_parts [of "''tcp''" "'':9000''"]
  by (simp add: strings_Contains_def Split_no_sep)

lemma parseAddr_udp_example:
  "parseAddr ''udp://127.0.0.1:5555'' = Some (''udp'', ''127.0.0.1:5555'')"
  using parseAddr_two_parts [of "''udp''" "''127.0.0.1:5555''"]
  by (simp add: strings_Contains_def Split_no_sep)

section \<open>Properties of the program\<close>

text \<open>
  C1. In the polling callback of a server's worker reactor and of the client's main
  reactor, for a descriptor that is in the loop's connection table: if the connection's
  outbound buffer is not empty, the result is that of the outbound handler when the event
  mask has a bit of \<open>OutEvents\<close> and a nil error with the loop unchanged otherwise, and it
  is the same whatever the inbound handler is (the inbound handler is not invoked); if
  the outbound buffer is empty, the result is that of the inbound handler when the event
  mask has a bit of \<open>InEvents\<close> and a nil error with the loop unchanged otherwise, and it
  is the same whatever the outbound handler is.
\<close>

theorem reactor_callback_ordering:
  "(connections lp d = Some c \<longrightarrow>
      (\<not> IsEmpty (outboundBuffer c) \<longrightarrow>
         subReactor_callback oe ie loopIn loopOut lp d ev j =
           (if ev AND oe \<noteq> 0 then loopOut lp c else (None, lp)) \<and>
         subReactor_callback oe ie loopIn loopOut lp d ev j =
           subReactor_callback oe ie loopIn' loopOut lp d ev j \<and>
         Client_mainReactor_callback oe ie loopIn loopOut lp d ev j =
           (if ev AND oe \<noteq> 0 then loopOut lp c else (None, lp)) \<and>
         Client_mainReactor_callback oe ie loopIn loopOut lp d ev j =
           Client_mainReactor_callback oe ie loopIn' loopOut lp d ev j) \<and>
      (IsEmpty (outboundBuffer c) \<longrightarrow>
         subReactor_callback oe ie loopIn loopOut lp d ev j =
           (if ev AND ie \<noteq> 0 then loopIn lp c else (None, lp)) \<and>
         subReactor_callback oe ie loopIn loopOut lp d ev j =
           subReactor_callback oe ie loopIn loopOut' lp d ev j \<and>
         Client_mainReactor_callback oe ie loopIn loopOut lp d ev j =
           (if ev AND ie \<noteq> 0 then loopIn lp c else (None, lp)) \<and>
         Client_mainReactor_callback oe ie loopIn loopOut lp d ev j =
           Client_mainReactor_callback oe ie loopIn loopOut' lp d ev j))"
  by (simp add: subReactor_callback_def Client_mainReactor_callback_def)

text \<open>The event mask 5 has both the readable and the writable bit: descriptor 6, with a
  byte to send, gets the outbound handler only, descriptor 5 the inbound handler only.\<close>

theorem reactor_callback_ordering_witness:
  "connections example_loop 6 = Some \<lparr>conn_fd = 6, outboundBuffer = [1]\<rparr> \<and>
   \<not> IsEmpty [1] \<and>
   subReactor_callback 0x201C 0x201B reporting_In reporting_Out example_loop 6 5 None =
     (Some (Err ''out''), example_loop) \<and>
   Client_mainReactor_callback 0x201C 0x201B reporting_In reporting_Out example_loop 6 1 None =
     (None, example_loop) \<and>
   connections example_loop 5 = Some \<lparr>conn_fd = 5, outboundBuffer = []\<rparr> \<and>
   IsEmpty [] \<and>
   Client_mainReactor_callback 0x201C 0x201B reporting_In reporting_Out example_loop 5 5 None =
     (Some (Err ''in''), example_loop) \<and>
   subReactor_callback 0x201C 0x201B reporting_In reporting_Out example_loop 5 4 None =
     (None, example_loop)"
proof -
  have 6: "connections example_loop 6 = Some \<lparr>conn_fd = 6, outboundBuffer = [1]\<rparr>"
    and 5: "connections example_loop 5 = Some \<lparr>conn_fd = 5, outboundBuffer = []\<rparr>"
    by (simp_all add: example_loop_def)
  have e: "\<not> IsEmpty [1]" "IsEmpty []" by (simp_all add: IsEmpty_def)
  note T = reactor_callback_ordering [where oe = "0x201C" and ie = "0x201B"
      and loopIn = reporting_In and loopOut = reporting_Out and lp = example_loop and j = None]
  from T [where d = 6 and c = "\<lparr>conn_fd = 6, outboundBuffer = [1]\<rparr>" and ev = 5] 6 e
  have a: "subReactor_callback 0x201C 0x201B reporting_In reporting_Out example_loop 6 5 None =
     (Some (Err ''out''), example_loop)"
    by (simp add: reporting_Out_def)
  from T [where d = 6 and c = "\<lparr>conn_fd = 6, outboundBuffer = [1]\<rparr>" and ev = 1] 6 e
  have b: "Client_mainReactor_callback 0x201C 0x201B reporting_In reporting_Out example_loop 6 1 None =
     (None, example_loop)"
    by simp
  from T [where d = 5 and c = "\<lparr>conn_fd = 5, outboundBuffer = []\<rparr>" and ev = 5] 5 e
  have c: "Client_mainReactor_callback 0x201C 0x201B reporting_In reporting_Out example_loop 5 5 None =
     (Some (Err ''in''), example_loop)"
    by (simp add: reporting_In_def)
  from T [where d = 5 and c = "\<lparr>conn_fd = 5, outboundBuffer = []\<rparr>" and ev = 4] 5 e
  have d: "subReactor_callback 0x201C 0x201B reporting_In reporting_Out example_loop 5 4 None =
     (None, example_loop)"
    by simp
  from 5 6 e a b c d show ?thesis by simp
qed

text \<open>
  C2. In \<open>connect\<close>, after a successful start, \<open>OnConnectionEstablished\<close> is applied once
  (the user's state that \<open>connect\<close> leaves is that of one application). When it returns
  \<open>Shutdown\<close>, \<open>connect\<close> does what it does when it returns \<open>None\<close>: the deferred \<open>stop\<close>
  begins in the same world. From that world, as long as no other path calls
  \<open>signalShutdown\<close> and the handlers return nil errors, \<open>once\<close> is not done, \<open>stop\<close> is at
  its wait, the reactor is running and the notifier is open: the client is not torn down.
\<close>

theorem connect_Shutdown_not_torn_down:
  assumes "fst (h (fst (snd (start (Inr p) (new_Client con options)))) u) = Shutdown"
  shows
    "connect (Inr p) h u con options =
       connect (Inr p) (\<lambda>cl u. (NoneAction, snd (h cl u))) u con options \<and>
     user (connect (Inr p) h u con options) =
       snd (h (fst (snd (start (Inr p) (new_Client con options)))) u) \<and>
     (asyncJobQueue p = [] \<and> \<not> poller_closed p \<and>
      handlers_keep_jobs N \<and> handlers_return_nil N \<and>
      deferred_stop (connect (Inr p) h u con options) = Some w0 \<and>
      run N es w0 = Some w \<and> EvShutdownAction \<notin> set es \<longrightarrow>
        \<not> once (client w) \<and>
        (stop_at w = StopWaitForShutdown \<or> stop_at w = StopParked) \<and>
        (reactor_at w = ReactorStart \<or> reactor_at w = ReactorPolling) \<and>
        \<not> notifier_closed w)"
proof (intro conjI impI)
  obtain a u' where h: "h (fst (snd (start (Inr p) (new_Client con options)))) u = (a, u')"
    by (cases "h (fst (snd (start (Inr p) (new_Client con options)))) u")
  with assms have a: "a = Shutdown" by simp
  from h a show "connect (Inr p) h u con options =
       connect (Inr p) (\<lambda>cl u. (NoneAction, snd (h cl u))) u con options"
    by (simp add: connect_def start_def activateReactors_def Let_def)
  from h a show "user (connect (Inr p) h u con options) =
       snd (h (fst (snd (start (Inr p) (new_Client con options)))) u)"
    by (simp add: connect_def start_def activateReactors_def Let_def)
next
  assume A: "asyncJobQueue p = [] \<and> \<not> poller_closed p \<and>
      handlers_keep_jobs N \<and> handlers_return_nil N \<and>
      deferred_stop (connect (Inr p) h u con options) = Some w0 \<and>
      run N es w0 = Some w \<and> EvShutdownAction \<notin> set es"
  then have d: "deferred_stop (connect (Inr p) h u con options) = Some w0"
    and q: "asyncJobQueue p = []" and c: "\<not> poller_closed p"
    and k: "handlers_keep_jobs N" and n: "handlers_return_nil N"
    and r: "run N es w0 = Some w" and e: "EvShutdownAction \<notin> set es"
    by simp_all
  from initial_inv_waiting [OF d q c] have "inv_waiting w0" .
  from run_inv_waiting [OF k n r this e] have i: "inv_waiting w" .
  from i show "\<not> once (client w)" by (simp add: inv_waiting_def)
  from i show "stop_at w = StopWaitForShutdown \<or> stop_at w = StopParked"
    by (simp add: inv_waiting_def)
  from i show "reactor_at w = ReactorStart \<or> reactor_at w = ReactorPolling"
    by (simp add: inv_waiting_def)
  from i show "\<not> notifier_closed w" by (simp add: inv_waiting_def)
qed

text \<open>The example client, with a callback that counts its calls and returns \<open>Shutdown\<close>:
  one call, and after the reactor has started, \<open>stop\<close> has parked and a readiness
  notification was handled, the client still runs.\<close>

theorem connect_Shutdown_not_torn_down_witness:
  "\<exists>w. run example_netpoll [EvReactor, EvStop, EvNotify (Ready 5 1)] example_world = Some w \<and>
     user (connect (Inr example_poller) (\<lambda>cl u. (Shutdown, Suc u)) 0 example_connection
       new_Options) = 1 \<and>
     connect (Inr example_poller) (\<lambda>cl u. (Shutdown, Suc u)) 0 example_connection new_Options =
       connect (Inr example_poller) (\<lambda>cl u. (NoneAction, Suc u)) 0 example_connection new_Options \<and>
     \<not> once (client w) \<and> stop_at w = StopParked \<and> reactor_at w = ReactorPolling \<and>
     \<not> notifier_closed w"
proof -
  obtain w where
    r: "run example_netpoll [EvReactor, EvStop, EvNotify (Ready 5 1)] example_world = Some w"
    using example_run_waiting by blast
  have s: "stop_at w = StopParked" and p: "reactor_at w = ReactorPolling"
    using r by (auto simp: world_defs)
  have q: "asyncJobQueue example_poller = []" "\<not> poller_closed example_poller"
    by (simp_all add: example_poller_def)
  have e: "EvShutdownAction \<notin> set [EvReactor, EvStop, EvNotify (Ready 5 1)]" by simp
  note T = connect_Shutdown_not_torn_down [where h = "\<lambda>cl u. (Shutdown, Suc u)"
      and p = example_poller and con = example_connection and options = new_Options
      and u = 0 and N = example_netpoll and ?w0.0 = example_world and w = w
      and es = "[EvReactor, EvStop, EvNotify (Ready 5 1)]"]
  from T q example_keep example_nil example_deferred [of Shutdown] r e s p
  show ?thesis by auto
qed

text \<open>
  C3. \<open>signalShutdown\<close> is idempotent. On a client whose \<open>once\<close> is not done, any number
  \<open>n \<ge> 1\<close> of calls leaves the client that one call leaves, with \<open>once\<close> done and the
  condition variable signalled one more time than before; two calls leave what one call
  leaves, on any client. In every run of a client that begins where \<open>connect\<close> defers
  \<open>stop\<close>, whatever the paths that call \<open>signalShutdown\<close> and however they interleave, the
  condition variable has been signalled once if \<open>once\<close> is done and never otherwise, and
  once as soon as a path has called \<open>signalShutdown\<close>.
\<close>

theorem signalShutdown_idempotent:
  "(\<not> once cl \<longrightarrow> 0 < n \<longrightarrow>
      (signalShutdown ^^ n) cl = signalShutdown cl \<and>
      once ((signalShutdown ^^ n) cl) \<and>
      signalled (cond ((signalShutdown ^^ n) cl)) = signalled (cond cl) + 1) \<and>
   signalShutdown (signalShutdown cl) = signalShutdown cl \<and>
   (deferred_stop (connect OpenPoller h u con options) = Some w0 \<longrightarrow>
    run N es w0 = Some w \<longrightarrow>
      signalled (cond (client w)) = (if once (client w) then 1 else 0) \<and>
      (EvShutdownAction \<in> set es \<longrightarrow> signalled (cond (client w)) = 1))"
proof (intro conjI impI)
  assume "\<not> once cl" and n: "0 < n"
  from n show "(signalShutdown ^^ n) cl = signalShutdown cl" by (rule funpow_signalShutdown)
  then show "once ((signalShutdown ^^ n) cl)" by (simp add: signalShutdown_simps)
  from \<open>\<not> once cl\<close> n
  show "signalled (cond ((signalShutdown ^^ n) cl)) = signalled (cond cl) + 1"
    by (simp add: funpow_signalShutdown signalShutdown_simps)
next
  show "signalShutdown (signalShutdown cl) = signalShutdown cl"
    by (rule signalShutdown_twice)
next
  assume d: "deferred_stop (connect OpenPoller h u con options) = Some w0"
    and r: "run N es w0 = Some w"
  from run_inv_sync [OF r initial_inv_sync [OF d]]
  show s: "signalled (cond (client w)) = (if once (client w) then 1 else 0)"
    by (simp add: inv_sync_def)
  assume "EvShutdownAction \<in> set es"
  with r have "once (client w)" by (rule run_signalled)
  with s show "signalled (cond (client w)) = 1" by simp
qed

text \<open>Five calls on the new client of the example, and a run in which three handlers
  request shutdown: one signal in both.\<close>

theorem signalShutdown_idempotent_witness:
  "\<not> once (new_Client example_connection new_Options) \<and> (0::nat) < 5 \<and>
   signalled (cond ((signalShutdown ^^ 5) (new_Client example_connection new_Options))) = 1 \<and>
   (\<exists>w. run example_netpoll
      [EvShutdownAction, EvReactor, EvShutdownAction, EvNotify (Ready 5 1), EvShutdownAction]
      example_world = Some w \<and> signalled (cond (client w)) = 1)"
proof -
  obtain w where r: "run example_netpoll
      [EvShutdownAction, EvReactor, EvShutdownAction, EvNotify (Ready 5 1), EvShutdownAction]
      example_world = Some w"
    using example_run_signals by blast
  have o: "\<not> once (new_Client example_connection new_Options)"
    and z: "signalled (cond (new_Client example_connection new_Options)) = 0"
    by (simp_all add: new_Client_def NewCond_def)
  note T = signalShutdown_idempotent [where cl = "new_Client example_connection new_Options"
      and n = 5 and OpenPoller = "Inr example_poller" and h = "\<lambda>cl u. (NoneAction, Suc u)"
      and u = 0 and con = example_connection and options = new_Options
      and ?w0.0 = example_world and N = example_netpoll and w = w
      and es = "[EvShutdownAction, EvReactor, EvShutdownAction, EvNotify (Ready 5 1),
        EvShutdownAction]"]
  from T o z r example_deferred [of NoneAction] show ?thesis by auto
qed

text \<open>
  C4. The teardown of a client follows the sentinel protocol in a fixed order. In every
  run that begins where \<open>connect\<close> defers \<open>stop\<close> (the handlers leaving the job queue to
  \<open>Trigger\<close>):
  \<^item> \<open>stop\<close> is past its wait only if the shutdown signal has fired;
  \<^item> no job is queued before \<open>stop\<close> injects one, and once it has, the job it injected is
    queued unless \<open>Polling\<close> has returned; that job returns \<open>errShutdown\<close>;
  \<^item> \<open>stop\<close> is past \<open>cl.wg.Wait()\<close> only if the reactor's goroutine has exited;
  \<^item> the notifier is closed exactly when \<open>stop\<close> has returned;
  \<^item> every step of \<open>stop\<close> leads to the next place of the order wait, resume, inject,
    wait for the reactor, close;
  \<^item> if the handlers return nil errors, \<open>Polling\<close> has returned only if \<open>stop\<close> has
    injected its job.
\<close>

theorem stop_sentinel_protocol:
  assumes "deferred_stop (connect (Inr p) h u con options) = Some w0"
    and "asyncJobQueue p = []" and "\<not> poller_closed p"
    and "handlers_keep_jobs N"
    and "run N es w0 = Some w"
  shows
    "(stop_at w \<noteq> StopWaitForShutdown \<and> stop_at w \<noteq> StopParked \<longrightarrow>
        once (client w) \<and> signalled (cond (client w)) = 1) \<and>
     (before_injection (stop_at w) \<longrightarrow> queued_jobs w = []) \<and>
     (\<not> before_injection (stop_at w) \<longrightarrow>
        shutdown_job \<in> set (queued_jobs w) \<or>
        (reactor_at w \<noteq> ReactorStart \<and> reactor_at w \<noteq> ReactorPolling)) \<and>
     shutdown_job () = Some errShutdown \<and>
     (stop_at w = StopClose \<or> stop_at w = StopReturned \<longrightarrow>
        reactor_at w = ReactorExited \<and> wg (client w) = 0) \<and>
     (notifier_closed w \<longleftrightarrow> stop_at w = StopReturned) \<and>
     (\<forall>w'. stop_step w = Some w' \<longrightarrow>
        (stop_at w, stop_at w') \<in>
          {(StopWaitForShutdown, StopParked), (StopParked, StopTrigger),
           (StopTrigger, StopWgWait), (StopWgWait, StopClose), (StopClose, StopReturned)}) \<and>
     (handlers_return_nil N \<longrightarrow>
        reactor_at w \<noteq> ReactorStart \<and> reactor_at w \<noteq> ReactorPolling \<longrightarrow>
        \<not> before_injection (stop_at w))"
proof -
  from run_inv_sync [OF assms(5) initial_inv_sync [OF assms(1)]]
  have s: "inv_sync w" .
  from run_inv_wg [OF assms(5) initial_inv_wg [OF assms(1)]]
  have g: "inv_wg w" .
  from initial_inv_poller [OF assms(1,2,3)] have p0: "inv_poller w0" .
  from run_inv_poller [OF assms(4,5) p0] have p: "inv_poller w" .
  have e0: "reactor_at w0 \<noteq> ReactorStart \<and> reactor_at w0 \<noteq> ReactorPolling \<longrightarrow>
      \<not> before_injection (stop_at w0)"
    using assms(1) by (rule connect_deferred) simp
  have n: "handlers_return_nil N \<longrightarrow>
      reactor_at w \<noteq> ReactorStart \<and> reactor_at w \<noteq> ReactorPolling \<longrightarrow>
      \<not> before_injection (stop_at w)"
    using run_polling_ended [OF assms(4) _ assms(5) p0 e0] by blast
  have 1: "stop_at w \<noteq> StopWaitForShutdown \<and> stop_at w \<noteq> StopParked \<longrightarrow>
      once (client w) \<and> signalled (cond (client w)) = 1"
    using s by (simp add: inv_sync_def)
  have 2: "before_injection (stop_at w) \<longrightarrow> queued_jobs w = []"
    and 3: "\<not> before_injection (stop_at w) \<longrightarrow> shutdown_job \<in> set (queued_jobs w) \<or>
        (reactor_at w \<noteq> ReactorStart \<and> reactor_at w \<noteq> ReactorPolling)"
    and 6: "notifier_closed w \<longleftrightarrow> stop_at w = StopReturned"
    using p by (simp_all add: inv_poller_def)
  have 5: "stop_at w = StopClose \<or> stop_at w = StopReturned \<longrightarrow>
      reactor_at w = ReactorExited \<and> wg (client w) = 0"
    using g by (auto simp: inv_wg_def)
  have 7: "\<forall>w'. stop_step w = Some w' \<longrightarrow>
        (stop_at w, stop_at w') \<in>
          {(StopWaitForShutdown, StopParked), (StopParked, StopTrigger),
           (StopTrigger, StopWgWait), (StopWgWait, StopClose), (StopClose, StopReturned)}"
    using stop_step_order by blast
  from 1 2 3 5 6 7 n show ?thesis by (simp only: shutdown_job_result simp_thms)
qed

text \<open>A complete teardown of the example client: the reactor starts, \<open>stop\<close> parks, a
  readiness notification is handled, a handler requests shutdown, \<open>stop\<close> resumes and
  injects its job, the reactor runs it, leaves \<open>Polling\<close> and exits, \<open>stop\<close> returns from
  \<open>cl.wg.Wait()\<close> and closes the notifier.\<close>

theorem stop_sentinel_protocol_witness:
  "\<exists>w. run example_netpoll
     [EvReactor, EvStop, EvNotify (Ready 5 1), EvShutdownAction, EvStop, EvStop,
      EvNotify Injected, EvReactor, EvReactor, EvStop, EvStop] example_world = Some w \<and>
     stop_at w = StopReturned \<and> once (client w) \<and> signalled (cond (client w)) = 1 \<and>
     reactor_at w = ReactorExited \<and> wg (client w) = 0 \<and> notifier_closed w"
proof -
  obtain w where r: "run example_netpoll
     [EvReactor, EvStop, EvNotify (Ready 5 1), EvShutdownAction, EvStop, EvStop,
      EvNotify Injected, EvReactor, EvReactor, EvStop, EvStop] example_world = Some w"
    and s: "stop_at w = StopReturned"
    using example_run_complete by blast
  have q: "asyncJobQueue example_poller = []" "\<not> poller_closed example_poller"
    by (simp_all add: example_poller_def)
  from stop_sentinel_protocol [OF example_deferred [of NoneAction] q example_keep r] s
  have "once (client w) \<and> signalled (cond (client w)) = 1 \<and>
     reactor_at w = ReactorExited \<and> wg (client w) = 0 \<and> notifier_closed w"
    by simp
  with r s show ?thesis by blast
qed

text \<open>
  C5. Every setup failure is returned by \<open>Serve\<close> and \<open>Connect\<close>, and the orchestrator is
  not reached: when the listening call or \<open>ln.system()\<close> fails with \<open>err\<close>, \<open>Serve\<close>
  returns \<open>err\<close> and its trace has no call of \<open>serve\<close>; when the address resolution, the
  dial, the extraction of the file or \<open>SetNonblock\<close> fails with \<open>err\<close>, \<open>Connect\<close> returns
  \<open>err\<close> and its trace is empty (no call of \<open>connect\<close>).
\<close>

theorem setup_failure_returned:
  "(parseAddr addr = Some (network, address) \<longrightarrow>
      (Serve_listen env (initOptions os)
          (zero_listener\<lparr>ln_network := network, ln_addr := address\<rparr>) = Inl err \<longrightarrow>
         fst (Serve env serve_fn eh addr os) = Return (Some err) \<and>
         Call_serve \<notin> set (snd (Serve env serve_fn eh addr os))) \<and>
      (Serve_listen env (initOptions os)
          (zero_listener\<lparr>ln_network := network, ln_addr := address\<rparr>) = Inr l \<and>
       system env (Serve_lnaddr env l) = Inl err \<longrightarrow>
         fst (Serve env serve_fn eh addr os) = Return (Some err) \<and>
         Call_serve \<notin> set (snd (Serve env serve_fn eh addr os))) \<and>
      (Connect_resolve env network address = Inl err \<longrightarrow>
         Connect env connect_fn eh addr os = (Return (Some err), [])) \<and>
      (Connect_resolve env network address = Inr raddr \<and>
       Connect_dial env network raddr = Inl err \<longrightarrow>
         Connect env connect_fn eh addr os = (Return (Some err), [])) \<and>
      (Connect_resolve env network address = Inr raddr \<and>
       Connect_dial env network raddr = Inr c \<and> File env c = Inl err \<longrightarrow>
         Connect env connect_fn eh addr os = (Return (Some err), [])) \<and>
      (Connect_resolve env network address = Inr raddr \<and>
       Connect_dial env network raddr = Inr c \<and> File env c = Inr f \<and>
       SetNonblock env (Fd env f) = Some err \<longrightarrow>
         Connect env connect_fn eh addr os = (Return (Some err), [])))"
  by (simp add: Serve_def Connect_def Let_def)

text \<open>One failing call at a time in the environment where all succeed: a listen failure
  and a socket-option failure for \<open>Serve\<close> on \<open>tcp://:9000\<close>; a resolution, a dial, a
  file and a non-blocking failure for \<open>Connect\<close> to \<open>udp://127.0.0.1:5555\<close>.\<close>

theorem setup_failure_returned_witness:
  "fst (Serve (ok_env\<lparr>Listen := \<lambda>_ _. Inl (Err ''listen'')\<rparr>) (\<lambda>_ _ _. None) ()
        ''tcp://:9000'' []) = Return (Some (Err ''listen'')) \<and>
   Call_serve \<notin> set (snd (Serve (ok_env\<lparr>Listen := \<lambda>_ _. Inl (Err ''listen'')\<rparr>)
        (\<lambda>_ _ _. None) () ''tcp://:9000'' [])) \<and>
   fst (Serve (ok_env\<lparr>system := \<lambda>_. Inl (Err ''sockopt'')\<rparr>) (\<lambda>_ _ _. None) ()
        ''tcp://:9000'' []) = Return (Some (Err ''sockopt'')) \<and>
   Call_serve \<notin> set (snd (Serve (ok_env\<lparr>system := \<lambda>_. Inl (Err ''sockopt'')\<rparr>)
        (\<lambda>_ _ _. None) () ''tcp://:9000'' [])) \<and>
   Connect (ok_env\<lparr>ResolveUDPAddr := \<lambda>_ _. Inl (Err ''resolve'')\<rparr>) (\<lambda>_ _ _. None) ()
        ''udp://127.0.0.1:5555'' [] = (Return (Some (Err ''resolve'')), []) \<and>
   Connect (ok_env\<lparr>DialUDP := \<lambda>_ _. Inl (Err ''dial'')\<rparr>) (\<lambda>_ _ _. None) ()
        ''udp://127.0.0.1:5555'' [] = (Return (Some (Err ''dial'')), []) \<and>
   Connect (ok_env\<lparr>File := \<lambda>_. Inl (Err ''file'')\<rparr>) (\<lambda>_ _ _. None) ()
        ''udp://127.0.0.1:5555'' [] = (Return (Some (Err ''file'')), []) \<and>
   Connect (ok_env\<lparr>SetNonblock := \<lambda>_. Some (Err ''nonblock'')\<rparr>) (\<lambda>_ _ _. None) ()
        ''udp://127.0.0.1:5555'' [] = (Return (Some (Err ''nonblock'')), [])"
proof -
  note defs = Serve_listen_def Serve_lnaddr_def Connect_resolve_def Connect_dial_def
    ok_env_def initOptions_def new_Options_def zero_listener_def
  note S = setup_failure_returned [where addr = "''tcp://:9000''" and network = "''tcp''"
      and address = "'':9000''" and os = "[]" and eh = "()" and serve_fn = "\<lambda>_ _ _. None"]
  note C = setup_failure_returned [where addr = "''udp://127.0.0.1:5555''"
      and network = "''udp''" and address = "''127.0.0.1:5555''" and os = "[]" and eh = "()"
      and connect_fn = "\<lambda>_ _ _. None"]
  have 1: "fst (Serve (ok_env\<lparr>Listen := \<lambda>_ _. Inl (Err ''listen'')\<rparr>) (\<lambda>_ _ _. None) ()
        ''tcp://:9000'' []) = Return (Some (Err ''listen'')) \<and>
      Call_serve \<notin> set (snd (Serve (ok_env\<lparr>Listen := \<lambda>_ _. Inl (Err ''listen'')\<rparr>)
        (\<lambda>_ _ _. None) () ''tcp://:9000'' []))"
    using S [where env = "ok_env\<lparr>Listen := \<lambda>_ _. Inl (Err ''listen'')\<rparr>"
        and err = "Err ''listen''"] parseAddr_tcp_example
    by (simp add: defs)
  have 2: "fst (Serve (ok_env\<lparr>system := \<lambda>_. Inl (Err ''sockopt'')\<rparr>) (\<lambda>_ _ _. None) ()
        ''tcp://:9000'' []) = Return (Some (Err ''sockopt'')) \<and>
      Call_serve \<notin> set (snd (Serve (ok_env\<lparr>system := \<lambda>_. Inl (Err ''sockopt'')\<rparr>)
        (\<lambda>_ _ _. None) () ''tcp://:9000'' []))"
    using S [where env = "ok_env\<lparr>system := \<lambda>_. Inl (Err ''sockopt'')\<rparr>"
        and err = "Err ''sockopt''"
        and l = "zero_listener\<lparr>ln_network := ''tcp'', ln_addr := '':9000'', ln := Some 4\<rparr>"]
      parseAddr_tcp_example
    by (simp add: defs)
  have 3: "Connect (ok_env\<lparr>ResolveUDPAddr := \<lambda>_ _. Inl (Err ''resolve'')\<rparr>) (\<lambda>_ _ _. None) ()
        ''udp://127.0.0.1:5555'' [] = (Return (Some (Err ''resolve'')), [])"
    using C [where env = "ok_env\<lparr>ResolveUDPAddr := \<lambda>_ _. Inl (Err ''resolve'')\<rparr>"
        and err = "Err ''resolve''"] parseAddr_udp_example
    by (simp add: defs)
  have 4: "Connect (ok_env\<lparr>DialUDP := \<lambda>_ _. Inl (Err ''dial'')\<rparr>) (\<lambda>_ _ _. None) ()
        ''udp://127.0.0.1:5555'' [] = (Return (Some (Err ''dial'')), [])"
    using C [where env = "ok_env\<lparr>DialUDP := \<lambda>_ _. Inl (Err ''dial'')\<rparr>"
        and err = "Err ''dial''" and raddr = "''127.0.0.1:5555''"] parseAddr_udp_example
    by (simp add: defs)
  have 5: "Connect (ok_env\<lparr>File := \<lambda>_. Inl (Err ''file'')\<rparr>) (\<lambda>_ _ _. None) ()
        ''udp://127.0.0.1:5555'' [] = (Return (Some (Err ''file'')), [])"
    using C [where env = "ok_env\<lparr>File := \<lambda>_. Inl (Err ''file'')\<rparr>"
        and err = "Err ''file''" and raddr = "''127.0.0.1:5555''" and c = "UDPConn 6"]
      parseAddr_udp_example
    by (simp add: defs)
  have 6: "Connect (ok_env\<lparr>SetNonblock := \<lambda>_. Some (Err ''nonblock'')\<rparr>) (\<lambda>_ _ _. None) ()
        ''udp://127.0.0.1:5555'' [] = (Return (Some (Err ''nonblock'')), [])"
    using C [where env = "ok_env\<lparr>SetNonblock := \<lambda>_. Some (Err ''nonblock'')\<rparr>"
        and err = "Err ''nonblock''" and raddr = "''127.0.0.1:5555''" and c = "UDPConn 6"
        and f = 8] parseAddr_udp_example
    by (simp add: defs)
  from 1 2 3 4 5 6 show ?thesis by blast
qed

text \<open>
  C6. The goroutine \<open>loopTicker\<close> is launched by the activation of a worker reactor, and
  by that of the client's main reactor, if and only if the index of the loop is 0 and the
  \<open>Ticker\<close> option is set; the activation of the server's accept reactor launches none.
\<close>

theorem ticker_launch:
  "(loopTicker i \<in> set (activateSubReactor_go svr_opts lp) \<longleftrightarrow>
      i = idx lp \<and> idx lp = 0 \<and> Ticker svr_opts) \<and>
   (loopTicker i \<in> set (Client_activateMainReactor_go cl_opts lp) \<longleftrightarrow>
      i = idx lp \<and> idx lp = 0 \<and> Ticker cl_opts) \<and>
   server_activateMainReactor_go svr_opts lp = []"
  by (auto simp: activateSubReactor_go_def Client_activateMainReactor_go_def
      server_activateMainReactor_go_def)

text \<open>
  C7. For a scheme among \<open>tcp\<close>, \<open>tcp4\<close>, \<open>tcp6\<close>, \<open>udp\<close>, \<open>udp4\<close>, \<open>udp6\<close> and \<open>unix\<close> and a
  rest that does not contain the separator, \<open>parseAddr\<close> of scheme, separator and rest
  returns the scheme and the rest; for an address that does not contain the separator it
  returns \<open>tcp\<close> and the address unchanged.
\<close>

theorem parseAddr_scheme:
  "(scheme \<in> {''tcp'', ''tcp4'', ''tcp6'', ''udp'', ''udp4'', ''udp6'', ''unix''} \<longrightarrow>
      \<not> strings_Contains hostport ''://'' \<longrightarrow>
      parseAddr (scheme @ ''://'' @ hostport) = Some (scheme, hostport)) \<and>
   (\<not> strings_Contains addr ''://'' \<longrightarrow> parseAddr addr = Some (''tcp'', addr))"
proof (intro conjI impI)
  assume s: "scheme \<in> {''tcp'', ''tcp4'', ''tcp6'', ''udp'', ''udp4'', ''udp6'', ''unix''}"
    and h: "\<not> strings_Contains hostport ''://''"
  from s have "\<not> strings_Contains scheme ''://''"
    by (auto simp: strings_Contains_def)
  moreover from h have "strings_Split hostport ''://'' = [hostport]"
    by (simp add: strings_Contains_def Split_no_sep)
  ultimately show "parseAddr (scheme @ ''://'' @ hostport) = Some (scheme, hostport)"
    using parseAddr_two_parts [of scheme hostport] by simp
next
  assume "\<not> strings_Contains addr ''://''"
  then show "parseAddr addr = Some (''tcp'', addr)" by (simp add: parseAddr_def)
qed

theorem parseAddr_scheme_witness:
  "parseAddr ''udp://127.0.0.1:5555'' = Some (''udp'', ''127.0.0.1:5555'') \<and>
   parseAddr ''unix://socket'' = Some (''unix'', ''socket'') \<and>
   parseAddr ''192.168.0.10:9851'' = Some (''tcp'', ''192.168.0.10:9851'')"
proof -
  have 1: "\<not> strings_Contains ''127.0.0.1:5555'' ''://''"
    and 2: "\<not> strings_Contains ''socket'' ''://''"
    and 3: "\<not> strings_Contains ''192.168.0.10:9851'' ''://''"
    by (simp_all add: strings_Contains_def)
  show ?thesis
    using parseAddr_scheme [of "''udp''" "''127.0.0.1:5555''" "''192.168.0.10:9851''"]
      parseAddr_scheme [of "''unix''" "''socket''" "''192.168.0.10:9851''"] 1 2 3
    by simp
qed

text \<open>
  C8. \<open>Client.Write\<close> has no guard: for every client and every byte slice it is the call
  of the write path on \<open>cl.conn\<close>, and on a client whose connection handle is not yet set
  (as \<open>connect\<close> builds it before \<open>start\<close>) it is the call of the write path on the nil
  handle. It returns no error of its own and has no wait.
\<close>

theorem Client_Write_unguarded:
  "Client_Write write cl b = write (conn cl) b \<and>
   Client_Write write (new_Client con options) b = write None b"
  by (simp add: Client_Write_def new_Client_def)

text \<open>
  C9, as amended. In the polling callback of a server's worker reactor and of the
  client's main reactor, a readiness event for a descriptor that is not in the loop's
  connection table is ignored: the callback returns a nil error and the loop unchanged,
  and \<open>Polling\<close> goes on with the next notification.
\<close>

theorem absent_descriptor_ignored:
  "connections lp d = None \<longrightarrow>
     subReactor_callback oe ie loopIn loopOut lp d ev j = (None, lp) \<and>
     Client_mainReactor_callback oe ie loopIn loopOut lp d ev j = (None, lp) \<and>
     Polling (subReactor_callback oe ie loopIn loopOut) ((d, ev) # ns) lp =
       Polling (subReactor_callback oe ie loopIn loopOut) ns lp \<and>
     Polling (Client_mainReactor_callback oe ie loopIn loopOut) ((d, ev) # ns) lp =
       Polling (Client_mainReactor_callback oe ie loopIn loopOut) ns lp"
  by (simp add: subReactor_callback_def Client_mainReactor_callback_def)

text \<open>Descriptor 9 is not in the table of the example loop: its event is ignored, and
  the event for descriptor 5 that follows it is handled.\<close>

theorem absent_descriptor_ignored_witness:
  "connections example_loop 9 = None \<and>
   subReactor_callback 0x201C 0x201B reporting_In reporting_Out example_loop 9 5 None =
     (None, example_loop) \<and>
   Client_mainReactor_callback 0x201C 0x201B reporting_In reporting_Out example_loop 9 5 None =
     (None, example_loop) \<and>
   Polling (subReactor_callback 0x201C 0x201B reporting_In reporting_Out) [(9, 5), (5, 1)]
     example_loop = Inl (Err ''in'', example_loop)"
proof -
  have 9: "connections example_loop 9 = None" by (simp add: example_loop_def)
  have "Polling (subReactor_callback 0x201C 0x201B reporting_In reporting_Out) [(5, 1)]
     example_loop = Inl (Err ''in'', example_loop)"
    by (simp add: subReactor_callback_def example_loop_def IsEmpty_def reporting_In_def)
  with 9 absent_descriptor_ignored [where lp = example_loop and d = 9 and oe = "0x201C"
      and ie = "0x201B" and loopIn = reporting_In and loopOut = reporting_Out and ev = 5
      and j = None and ns = "[(5, 1)]"]
  show ?thesis by simp
qed

text \<open>
  C9 as stated, for every reactor, fails at the accept reactor: the listener's
  descriptor 3 is not in the connection table of the accept reactor's loop, and its
  readiness event is not ignored. The callback hands it to \<open>acceptNewConnection\<close>, which
  accepts the waiting connection and registers it with the worker.
\<close>

theorem accept_reactor_not_ignored:
  "connections (svr_mainLoop example_server) 3 = None \<and>
   server_mainReactor_callback (acceptNewConnection (\<lambda>svr i c. (None, svr)))
     example_server 3 1 None \<noteq> (None, example_server) \<and>
   connections
     (hd (subLoopGroup (snd (server_mainReactor_callback
        (acceptNewConnection (\<lambda>svr i c. (None, svr))) example_server 3 1 None)))) 7 =
     Some (newConn 7)"
  by (simp add: example_server_def server_mainReactor_callback_def acceptNewConnection_def
      Let_def)

text \<open>
  C10. For every address in which the separator occurs two or more times, \<open>parseAddr\<close>
  returns as the address the segment between the first and the second occurrence: the
  address is a part \<open>a\<close>, the separator, a part \<open>b\<close>, the separator and a rest \<open>c\<close>, where
  neither \<open>a\<close> nor \<open>b\<close> contains the separator, and \<open>parseAddr\<close> returns \<open>a\<close> and \<open>b\<close>.
\<close>

theorem parseAddr_second_separator:
  assumes "2 \<le> strings_Count addr ''://''"
  shows "\<exists>a b c. addr = a @ ''://'' @ b @ ''://'' @ c \<and>
           \<not> strings_Contains a ''://'' \<and> \<not> strings_Contains b ''://'' \<and>
           parseAddr addr = Some (a, b)"
proof -
  from Count_ge2_decomp [OF assms] obtain a b c where
    d: "addr = a @ ''://'' @ b @ ''://'' @ c"
    and a: "\<not> strings_Contains a ''://''" and b: "\<not> strings_Contains b ''://''"
    by blast
  from b have "strings_Split (b @ ''://'' @ c) ''://'' = b # strings_Split c ''://''"
    using Split_first_sep [of b c] by (simp add: strings_Contains_def)
  with a have "parseAddr (a @ ''://'' @ b @ ''://'' @ c) = Some (a, b)"
    using parseAddr_two_parts [of a "b @ ''://'' @ c"] by simp
  with d a b show ?thesis by blast
qed

text \<open>The address \<open>tcp://a://b\<close> has the separator twice; \<open>parseAddr\<close> returns \<open>tcp\<close> and
  \<open>a\<close>, not \<open>a://b\<close>.\<close>

theorem parseAddr_second_separator_witness:
  "2 \<le> strings_Count ''tcp://a://b'' ''://'' \<and>
   parseAddr ''tcp://a://b'' = Some (''tcp'', ''a'') \<and>
   parseAddr ''tcp://a://b'' \<noteq> Some (''tcp'', ''a://b'')"
proof -
  have c: "2 \<le> strings_Count ''tcp://a://b'' ''://''" by code_simp
  from parseAddr_second_separator [OF c] obtain a b c where
    d: "''tcp://a://b'' = a @ ''://'' @ b @ ''://'' @ c"
    and a: "\<not> strings_Contains a ''://''" and b: "\<not> strings_Contains b ''://''"
    and p: "parseAddr ''tcp://a://b'' = Some (a, b)"
    by blast
  have "parseAddr ''tcp://a://b'' = Some (''tcp'', ''a'')" by code_simp
  with c show ?thesis by simp
qed

end
